theory Spec2Isabelle
  imports Main
begin

section \<open>Text, symbols and errors\<close>

text \<open>
  The parser consumes its input one rune at a time (\<^verbatim>\<open>bufio.Reader.ReadRune\<close>) and
  builds every result with \<^verbatim>\<open>string(ch)\<close>.  On well-formed UTF-8 text a Go string is thus
  faithfully a sequence of code points, which is what the model uses.
\<close>

type_synonym rune = nat
type_synonym gostring = "rune list"

definition str :: "string \<Rightarrow> gostring" where
  "str s = map of_char s"

text \<open>symbols.go: the sentinel \<^verbatim>\<open>var eof = rune(0)\<close> and the symbol constants.\<close>

definition eof :: rune where "eof = 0"

definition SymCmdStart :: rune where "SymCmdStart = of_char (CHR ''*'')"
definition SymCmdSep :: rune where "SymCmdSep = of_char (CHR ''|'')"
definition SymEscapeSeq :: rune where "SymEscapeSeq = of_char (CHR ''^'')"
definition SymArgStart :: rune where "SymArgStart = of_char (CHR '':'')"
definition SymArgSep :: rune where "SymArgSep = of_char (CHR '','')"
definition SymArgDoubleQuote :: rune where "SymArgDoubleQuote = of_char (CHR 0x22)"
definition SymArgSingleQuote :: rune where "SymArgSingleQuote = of_char (CHR 0x27)"
definition SymAdvArgStart :: rune where "SymAdvArgStart = of_char (CHR ''?'')"
definition SymAdvArgSep :: rune where "SymAdvArgSep = of_char (CHR ''&'')"
definition SymAdvArgEq :: rune where "SymAdvArgEq = of_char (CHR ''='')"
definition SymJSONStart :: rune where "SymJSONStart = of_char (CHR ''{'')"
definition SymJSONEnd :: rune where "SymJSONEnd = of_char (CHR ''}'')"
definition SymJSONEscapeSeq :: rune where "SymJSONEscapeSeq = of_char (CHR 0x5C)"
definition SymJSONString :: rune where "SymJSONString = of_char (CHR 0x22)"
definition SymInputMacroEscapeSeq :: rune where "SymInputMacroEscapeSeq = of_char (CHR 0x5C)"
definition SymInputMacroExtStart :: rune where "SymInputMacroExtStart = of_char (CHR ''{'')"
definition SymInputMacroExtEnd :: rune where "SymInputMacroExtEnd = of_char (CHR ''}'')"
definition SymExpressionStart :: rune where "SymExpressionStart = of_char (CHR ''['')"
definition SymExpressionEnd :: rune where "SymExpressionEnd = of_char (CHR '']'')"
definition SymMediaTitleStart :: rune where "SymMediaTitleStart = of_char (CHR ''@'')"
definition SymMediaTitleSep :: rune where "SymMediaTitleSep = of_char (CHR ''/'')"
definition TokExpStart :: gostring where "TokExpStart = [0xE000]"
definition TokExprEnd :: gostring where "TokExprEnd = [0xE001]"

lemmas sym_defs =
  eof_def SymCmdStart_def SymCmdSep_def SymEscapeSeq_def SymArgStart_def SymArgSep_def
  SymArgDoubleQuote_def SymArgSingleQuote_def SymAdvArgStart_def SymAdvArgSep_def
  SymAdvArgEq_def SymJSONStart_def SymJSONEnd_def SymJSONEscapeSeq_def SymJSONString_def
  SymInputMacroEscapeSeq_def SymInputMacroExtStart_def SymInputMacroExtEnd_def
  SymExpressionStart_def SymExpressionEnd_def SymMediaTitleStart_def SymMediaTitleSep_def
  TokExpStart_def TokExprEnd_def


text \<open>
  symbols.go: the error values.  \<^verbatim>\<open>ErrUnmatchedArrayBracket\<close> is used by the traits scanner and
  \<^verbatim>\<open>ErrInvalidTraitKey\<close> by the tests.  The last two constructors are the two failures of the
  reader itself: \<^verbatim>\<open>errors.New("rune error")\<close> in \<^verbatim>\<open>peek\<close> and the wrapped
  \<^verbatim>\<open>bufio.ErrInvalidUnreadRune\<close> in \<^verbatim>\<open>unread\<close>.  Errors are compared as \<^verbatim>\<open>errors.Is\<close> does, so
  the \<^verbatim>\<open>parse error at %d\<close> wrapper of \<^verbatim>\<open>ParseScript\<close> is not represented.
\<close>

datatype error =
    ErrUnexpectedEOF
  | ErrInvalidCmdName
  | ErrInvalidAdvArgName
  | ErrEmptyCmdName
  | ErrEmptyZapScript
  | ErrUnmatchedQuote
  | ErrInvalidJSON
  | ErrUnmatchedInputMacroExt
  | ErrUnmatchedExpression
  | ErrBadExpressionReturn
  | ErrUnmatchedArrayBracket
  | ErrInvalidTraitKey
  | ErrRuneError
  | ErrFailedUnread

fun isCmdName :: "rune \<Rightarrow> bool" where
  "isCmdName ch \<longleftrightarrow>
     (of_char (CHR ''a'') \<le> ch \<and> ch \<le> of_char (CHR ''z'')) \<or>
     (of_char (CHR ''A'') \<le> ch \<and> ch \<le> of_char (CHR ''Z'')) \<or>
     (of_char (CHR ''0'') \<le> ch \<and> ch \<le> of_char (CHR ''9'')) \<or>
     ch = of_char (CHR ''.'')"

fun isAdvArgName :: "rune \<Rightarrow> bool" where
  "isAdvArgName ch \<longleftrightarrow>
     (of_char (CHR ''a'') \<le> ch \<and> ch \<le> of_char (CHR ''z'')) \<or>
     (of_char (CHR ''A'') \<le> ch \<and> ch \<le> of_char (CHR ''Z'')) \<or>
     (of_char (CHR ''0'') \<le> ch \<and> ch \<le> of_char (CHR ''9'')) \<or>
     ch = of_char (CHR ''_'')"

fun isWhitespace :: "rune \<Rightarrow> bool" where
  "isWhitespace ch \<longleftrightarrow> ch = 32 \<or> ch = 9 \<or> ch = 10 \<or> ch = 13"

section \<open>Character cursor (reader.go)\<close>

text \<open>
  \<^verbatim>\<open>ScriptReader\<close> wraps a \<^verbatim>\<open>bufio.Reader\<close> over the bytes of the input.  The model keeps the
  runes not yet consumed (\<open>rest\<close>), the position counter, and the one piece of the
  \<^verbatim>\<open>bufio.Reader\<close> state the parser depends on: whether \<^verbatim>\<open>UnreadRune\<close> is allowed.  In bufio
  that is \<^verbatim>\<open>lastRuneSize >= 0\<close>; it holds only directly after a \<^verbatim>\<open>ReadRune\<close> that returned a
  rune.  A \<^verbatim>\<open>ReadRune\<close> that hits the end of the buffer, and every \<^verbatim>\<open>Peek\<close>, reset it to
  \<^verbatim>\<open>-1\<close>.  \<open>lastRune\<close> holds the rune that \<^verbatim>\<open>UnreadRune\<close> would give back.
\<close>

record ScriptReader =
  rest :: "rune list"
  pos :: int
  lastRune :: "rune option"

definition NewParser :: "gostring \<Rightarrow> ScriptReader" where
  "NewParser v = \<lparr>rest = v, pos = 0, lastRune = None\<rparr>"

text \<open>
  \<^verbatim>\<open>read\<close>: the only error \<^verbatim>\<open>ReadRune\<close> can give on an in-memory buffer is \<^verbatim>\<open>io.EOF\<close>, which
  \<^verbatim>\<open>read\<close> turns into the sentinel, so the error result of \<^verbatim>\<open>read\<close> is always nil and is
  left out.  A NUL rune in the text is returned as itself and equals the sentinel.
\<close>

definition read :: "ScriptReader \<Rightarrow> rune \<times> ScriptReader" where
  "read sr =
     (case rest sr of
        [] \<Rightarrow> (eof, sr\<lparr>lastRune := None\<rparr>)
      | ch # cs \<Rightarrow> (ch, sr\<lparr>rest := cs, pos := pos sr + 1, lastRune := Some ch\<rparr>))"

definition unread :: "ScriptReader \<Rightarrow> error + ScriptReader" where
  "unread sr =
     (case lastRune sr of
        None \<Rightarrow> Inl ErrFailedUnread
      | Some ch \<Rightarrow> Inr (sr\<lparr>rest := ch # rest sr, pos := pos sr - 1, lastRune := None\<rparr>))"

text \<open>
  \<^verbatim>\<open>peek\<close> tries \<^verbatim>\<open>Peek(4)\<close> down to \<^verbatim>\<open>Peek(1)\<close> and decodes the first rune of what it gets;
  a decoded \<^verbatim>\<open>utf8.RuneError\<close> (U+FFFD) is reported as an error.
\<close>

definition RuneError :: rune where "RuneError = 0xFFFD"

definition peek :: "ScriptReader \<Rightarrow> (error + rune) \<times> ScriptReader" where
  "peek sr =
     (case rest sr of
        [] \<Rightarrow> (Inr eof, sr\<lparr>lastRune := None\<rparr>)
      | ch # cs \<Rightarrow>
          if ch = RuneError then (Inl ErrRuneError, sr\<lparr>lastRune := None\<rparr>)
          else (Inr ch, sr\<lparr>lastRune := None\<rparr>))"

definition skip :: "ScriptReader \<Rightarrow> ScriptReader" where
  "skip sr = snd (read sr)"

definition checkEndOfCmd :: "rune \<Rightarrow> ScriptReader \<Rightarrow> error + (bool \<times> ScriptReader)" where
  "checkEndOfCmd ch sr =
     (if ch \<noteq> SymCmdSep then Inr (False, sr)
      else case peek sr of
          (Inl e, sr1) \<Rightarrow> Inl e
        | (Inr next, sr1) \<Rightarrow>
            if next = eof then Inr (True, sr1)
            else if next = SymCmdSep then Inr (True, skip sr1)
            else Inr (False, sr1))"

section \<open>Escape decoder (reader.go)\<close>

definition parseEscapeSeq :: "ScriptReader \<Rightarrow> gostring \<times> ScriptReader" where
  "parseEscapeSeq sr =
     (case read sr of (ch, sr1) \<Rightarrow>
        (if ch = eof then []
         else if ch = of_char (CHR ''n'') then [10]
         else if ch = of_char (CHR ''r'') then [13]
         else if ch = of_char (CHR ''t'') then [9]
         else if ch = SymEscapeSeq then [SymEscapeSeq]
         else if ch = SymArgDoubleQuote then [SymArgDoubleQuote]
         else if ch = SymArgSingleQuote then [SymArgSingleQuote]
         else [ch], sr1))"

section \<open>Expression tokenizer (expressions.go)\<close>

function parseExpression_loop ::
  "gostring \<Rightarrow> ScriptReader \<Rightarrow> error + (gostring \<times> ScriptReader)" where
  "parseExpression_loop rawExpr sr =
     (case read sr of (ch, sr1) \<Rightarrow>
        if ch = eof then Inl ErrUnmatchedExpression
        else if ch = SymExpressionEnd then
          (case peek sr1 of
             (Inl e, sr2) \<Rightarrow> Inl e
           | (Inr next, sr2) \<Rightarrow>
               if next = SymExpressionEnd then Inr (rawExpr @ TokExprEnd, skip sr2)
               else parseExpression_loop (rawExpr @ [ch]) sr2)
        else parseExpression_loop (rawExpr @ [ch]) sr1)"
  by pat_completeness auto

text \<open>Facts about the cursor used by the termination proofs: no operation but
  \<open>unread\<close> lengthens the remaining input, and a \<open>read\<close> that returns a rune other than the
  sentinel shortens it.\<close>

lemma readE:
  assumes "read sr = (ch, sr1)"
    and "\<lbrakk>rest sr = []; ch = eof; rest sr1 = []; lastRune sr1 = None\<rbrakk> \<Longrightarrow> P"
    and "\<And>cs. \<lbrakk>rest sr = ch # cs; rest sr1 = cs; lastRune sr1 = Some ch\<rbrakk> \<Longrightarrow> P"
  shows P
  using assms by (auto simp: read_def split: list.splits)

lemma read_len: "read sr = (ch, sr1) \<Longrightarrow> length (rest sr1) \<le> length (rest sr)"
  by (erule readE) auto

lemma read_shrinks:
  "read sr = (ch, sr1) \<Longrightarrow> ch \<noteq> eof \<Longrightarrow> length (rest sr1) < length (rest sr)"
  by (erule readE) auto

lemma peek_rest: "peek sr = (r, sr1) \<Longrightarrow> rest sr1 = rest sr"
  by (auto simp: peek_def split: list.splits if_splits)

lemma skip_len: "length (rest (skip sr)) \<le> length (rest sr)"
  by (auto simp: skip_def read_def split: list.splits)

lemma checkEndOfCmd_len:
  "checkEndOfCmd ch sr = Inr (b, sr1) \<Longrightarrow> length (rest sr1) \<le> length (rest sr)"
  using skip_len
  by (auto simp: checkEndOfCmd_def split: if_splits prod.splits sum.splits dest!: peek_rest)
     (metis skip_len)

lemma parseEscapeSeq_len:
  "parseEscapeSeq sr = (s, sr1) \<Longrightarrow> length (rest sr1) \<le> length (rest sr)"
  by (auto simp: parseEscapeSeq_def split: prod.splits dest: read_len)

lemma read_measure:
  "(ch, sr1) = read sr \<Longrightarrow>
   length (rest sr1) \<le> length (rest sr) \<and>
   (ch \<noteq> eof \<longrightarrow> length (rest sr1) < length (rest sr)) \<and>
   (rest sr \<noteq> [] \<longrightarrow> length (rest sr1) < length (rest sr))"
  by (auto simp: read_def split: list.splits)

lemma peek_measure:
  "(r, sr1) = peek sr \<Longrightarrow>
   rest sr1 = rest sr \<and> (\<forall>n. r = Inr n \<and> n \<noteq> eof \<longrightarrow> rest sr \<noteq> [])"
  by (auto simp: peek_def split: list.splits if_splits)

lemmas read_shrinks_sym = read_shrinks [OF sym]
lemmas read_len_sym = read_len [OF sym]
lemmas peek_rest_sym = peek_rest [OF sym]
lemmas checkEndOfCmd_len_sym = checkEndOfCmd_len [OF sym]
lemmas parseEscapeSeq_len_sym = parseEscapeSeq_len [OF sym]

termination parseExpression_loop
  by (relation "measure (\<lambda>(rawExpr, sr). length (rest sr))")
     (auto dest!: peek_rest_sym dest: read_shrinks_sym)

declare parseExpression_loop.simps [simp del]

definition parseExpression :: "ScriptReader \<Rightarrow> error + (gostring \<times> ScriptReader)" where
  "parseExpression sr =
     (case read sr of (next, sr1) \<Rightarrow>
        if next \<noteq> SymExpressionStart then
          (case unread sr1 of
             Inl e \<Rightarrow> Inl e
           | Inr sr2 \<Rightarrow> Inr ([SymExpressionStart], sr2))
        else parseExpression_loop TokExpStart sr1)"

lemma parseExpression_loop_len:
  "parseExpression_loop rawExpr sr = Inr (v, sr') \<Longrightarrow> length (rest sr') \<le> length (rest sr)"
proof (induction "length (rest sr)" arbitrary: rawExpr sr rule: less_induct)
  case less
  note IH = less.hyps [rotated]
  show ?case using less.prems
    by (subst (asm) parseExpression_loop.simps)
       (auto split: prod.splits if_splits sum.splits elim!: readE dest!: peek_rest IH
          intro: order_trans [OF skip_len])
qed

lemma parseExpression_len:
  "parseExpression sr = Inr (v, sr') \<Longrightarrow> length (rest sr') \<le> length (rest sr)"
  by (auto simp: parseExpression_def unread_def
      split: prod.splits if_splits sum.splits option.splits
      elim!: readE dest!: parseExpression_loop_len)

function ParseExpressions_loop :: "gostring \<Rightarrow> ScriptReader \<Rightarrow> error + gostring" where
  "ParseExpressions_loop result sr =
     (case read sr of (ch, sr1) \<Rightarrow>
        if ch = eof then Inr result
        else if ch = SymEscapeSeq then
          (case parseEscapeSeq sr1 of (next, sr2) \<Rightarrow>
             ParseExpressions_loop (result @ next) sr2)
        else if ch = SymExpressionStart then
          (case parseExpression sr1 of
             Inl e \<Rightarrow> Inl e
           | Inr (exprValue, sr2) \<Rightarrow> ParseExpressions_loop (result @ exprValue) sr2)
        else ParseExpressions_loop (result @ [ch]) sr1)"
  by pat_completeness auto

termination ParseExpressions_loop
  by (relation "measure (\<lambda>(result, sr). length (rest sr))")
     (auto dest!: read_shrinks_sym parseEscapeSeq_len_sym parseExpression_len)

declare ParseExpressions_loop.simps [simp del]

definition ParseExpressions :: "ScriptReader \<Rightarrow> error + gostring" where
  "ParseExpressions sr = ParseExpressions_loop [] sr"

section \<open>Quoted-literal scanner (reader.go)\<close>

function parseQuotedArg_loop ::
  "rune \<Rightarrow> gostring \<Rightarrow> ScriptReader \<Rightarrow> error + (gostring \<times> ScriptReader)" where
  "parseQuotedArg_loop start arg sr =
     (case read sr of (ch, sr1) \<Rightarrow>
        if ch = eof then Inl ErrUnmatchedQuote
        else if ch = SymEscapeSeq then
          (case parseEscapeSeq sr1 of (next, sr2) \<Rightarrow>
             parseQuotedArg_loop start (arg @ next) sr2)
        else if ch = SymExpressionStart then
          (case parseExpression sr1 of
             Inl e \<Rightarrow> Inl e
           | Inr (exprValue, sr2) \<Rightarrow> parseQuotedArg_loop start (arg @ exprValue) sr2)
        else if ch = start then Inr (arg, sr1)
        else parseQuotedArg_loop start (arg @ [ch]) sr1)"
  by pat_completeness auto

termination parseQuotedArg_loop
  by (relation "measure (\<lambda>(start, arg, sr). length (rest sr))")
     (auto dest!: read_shrinks_sym parseEscapeSeq_len_sym parseExpression_len)

declare parseQuotedArg_loop.simps [simp del]

definition parseQuotedArg :: "rune \<Rightarrow> ScriptReader \<Rightarrow> error + (gostring \<times> ScriptReader)" where
  "parseQuotedArg start sr = parseQuotedArg_loop start [] sr"

lemma parseQuotedArg_loop_len:
  "parseQuotedArg_loop start arg sr = Inr (v, sr') \<Longrightarrow> length (rest sr') \<le> length (rest sr)"
proof (induction "length (rest sr)" arbitrary: arg sr rule: less_induct)
  case less
  note IH = less.hyps [rotated]
  show ?case using less.prems
    by (subst (asm) parseQuotedArg_loop.simps)
       (auto split: prod.splits if_splits sum.splits
          dest!: read_shrinks parseEscapeSeq_len parseExpression_len IH)
qed

lemma parseQuotedArg_len:
  "parseQuotedArg start sr = Inr (v, sr') \<Longrightarrow> length (rest sr') \<le> length (rest sr)"
  unfolding parseQuotedArg_def by (rule parseQuotedArg_loop_len)


section \<open>Library functions on strings\<close>

text \<open>
  \<^verbatim>\<open>strings.TrimSpace\<close> removes leading and trailing runes for which \<^verbatim>\<open>unicode.IsSpace\<close>
  holds.
\<close>

definition isSpace :: "rune \<Rightarrow> bool" where
  "isSpace r \<longleftrightarrow>
     (9 \<le> r \<and> r \<le> 13) \<or> r = 32 \<or> r = 0x85 \<or> r = 0xA0 \<or> r = 0x1680 \<or>
     (0x2000 \<le> r \<and> r \<le> 0x200A) \<or> r = 0x2028 \<or> r = 0x2029 \<or> r = 0x202F \<or>
     r = 0x205F \<or> r = 0x3000"

definition TrimSpace :: "gostring \<Rightarrow> gostring" where
  "TrimSpace s = rev (dropWhile isSpace (rev (dropWhile isSpace s)))"

text \<open>
  \<^verbatim>\<open>strings.ToLower\<close> is only ever applied to command names and trait keys, which consist
  of ASCII letters, digits, \<^verbatim>\<open>.\<close> and \<^verbatim>\<open>_\<close>; on those it maps \<^verbatim>\<open>A-Z\<close> to \<^verbatim>\<open>a-z\<close>.
\<close>

definition ToLower :: "gostring \<Rightarrow> gostring" where
  "ToLower s =
     map (\<lambda>c. if of_char (CHR ''A'') \<le> c \<and> c \<le> of_char (CHR ''Z'') then c + 32 else c) s"

section \<open>JSON-literal extractor (args.go)\<close>

text \<open>
  \<^verbatim>\<open>encoding/json\<close> is an external collaborator: \<^verbatim>\<open>json.Unmarshal\<close> into an \<^verbatim>\<open>any\<close> and
  \<^verbatim>\<open>json.Marshal\<close> of the decoded value are parameters of the model (\<open>None\<close> is a
  non-nil error).
\<close>

record 'j json_codec =
  Unmarshal :: "gostring \<Rightarrow> 'j option"
  Marshal :: "'j \<Rightarrow> gostring option"

function parseJSONArg_loop ::
  "int \<Rightarrow> bool \<Rightarrow> bool \<Rightarrow> gostring \<Rightarrow> ScriptReader \<Rightarrow> error + (gostring \<times> ScriptReader)" where
  "parseJSONArg_loop braceCount inString escaped jsonBuilder sr0 =
     (if braceCount > 0 then
        (case read sr0 of (ch, sr) \<Rightarrow>
           if ch = eof then Inl ErrInvalidJSON
           else if escaped then
             parseJSONArg_loop braceCount inString False (jsonBuilder @ [ch]) sr
           else if ch = SymJSONEscapeSeq then
             parseJSONArg_loop braceCount inString True (jsonBuilder @ [ch]) sr
           else if ch = SymJSONString then
             parseJSONArg_loop braceCount (\<not> inString) escaped (jsonBuilder @ [ch]) sr
           else if \<not> inString then
             (if ch = SymJSONStart then
                parseJSONArg_loop (braceCount + 1) inString escaped (jsonBuilder @ [ch]) sr
              else if ch = SymJSONEnd then
                parseJSONArg_loop (braceCount - 1) inString escaped (jsonBuilder @ [ch]) sr
              else parseJSONArg_loop braceCount inString escaped (jsonBuilder @ [ch]) sr)
           else parseJSONArg_loop braceCount inString escaped (jsonBuilder @ [ch]) sr)
      else Inr (jsonBuilder, sr0))"
  by pat_completeness auto

termination parseJSONArg_loop
  by (relation "measure (\<lambda>(braceCount, inString, escaped, jsonBuilder, sr). length (rest sr))")
     (auto dest!: read_shrinks_sym)

declare parseJSONArg_loop.simps [simp del]

definition parseJSONArg ::
  "'j json_codec \<Rightarrow> ScriptReader \<Rightarrow> error + (gostring \<times> ScriptReader)" where
  "parseJSONArg J sr =
     (case parseJSONArg_loop 1 False False [] sr of
        Inl e \<Rightarrow> Inl e
      | Inr (jsonBuilder, sr1) \<Rightarrow>
          (case Unmarshal J (SymJSONStart # jsonBuilder) of
             None \<Rightarrow> Inl ErrInvalidJSON
           | Some jsonObj \<Rightarrow>
               (case Marshal J jsonObj of
                  None \<Rightarrow> Inl ErrInvalidJSON
                | Some normalizedJSON \<Rightarrow> Inr (normalizedJSON, sr1))))"

lemma parseJSONArg_loop_len:
  "parseJSONArg_loop n i e b sr = Inr (v, sr') \<Longrightarrow> length (rest sr') \<le> length (rest sr)"
proof (induction "length (rest sr)" arbitrary: n i e b sr rule: less_induct)
  case less
  note IH = less.hyps [rotated]
  show ?case using less.prems
    by (subst (asm) parseJSONArg_loop.simps)
       (auto split: prod.splits if_splits dest!: read_shrinks IH)
qed

lemma parseJSONArg_len:
  "parseJSONArg J sr = Inr (v, sr') \<Longrightarrow> length (rest sr') \<le> length (rest sr)"
  by (auto simp: parseJSONArg_def split: sum.splits option.splits dest!: parseJSONArg_loop_len)

section \<open>Advanced-argument scanner (args.go)\<close>

type_synonym advargs = "gostring \<rightharpoonup> gostring"

text \<open>The closure \<^verbatim>\<open>storeArg\<close>; the caller resets \<^verbatim>\<open>currentArg\<close> and \<^verbatim>\<open>currentValue\<close>.\<close>

definition storeArg :: "advargs \<Rightarrow> gostring \<Rightarrow> gostring \<Rightarrow> advargs" where
  "storeArg advArgs currentArg currentValue =
     (if currentArg \<noteq> [] then advArgs(currentArg \<mapsto> TrimSpace currentValue) else advArgs)"

text \<open>
  \<^verbatim>\<open>parseAdvArgs\<close> returns \<^verbatim>\<open>(advArgs, remainingStr, err)\<close>.  Its callers distinguish three
  outcomes: no error; \<^verbatim>\<open>ErrInvalidAdvArgName\<close>, after which they keep reading from the same
  reader and use \<^verbatim>\<open>remainingStr\<close>; and any other error, which they return at once.  Only
  \<^verbatim>\<open>parseAdvArgs\<close> itself raises \<^verbatim>\<open>ErrInvalidAdvArgName\<close>.
\<close>

datatype advargs_result =
    AdvArgsOk advargs gostring ScriptReader
  | AdvArgsInvalidName gostring ScriptReader
  | AdvArgsErr error

text \<open>
  The loop of \<^verbatim>\<open>parseAdvArgs\<close>.  The three cases of the \<^verbatim>\<open>switch\<close> guarded by \<^verbatim>\<open>inValue\<close> come
  first, each with \<^verbatim>\<open>inValue\<close> in its condition; \<open>pos sr\<close> is \<^verbatim>\<open>sr.pos\<close> after the read.
\<close>

function parseAdvArgs_loop ::
  "'j json_codec \<Rightarrow> advargs \<Rightarrow> bool \<Rightarrow> gostring \<Rightarrow> gostring \<Rightarrow> int \<Rightarrow> gostring \<Rightarrow>
   ScriptReader \<Rightarrow> advargs_result" where
  "parseAdvArgs_loop J advArgs inValue currentArg currentValue valueStart buf sr0 =
     (case read sr0 of (ch, sr) \<Rightarrow>
        if ch = eof then AdvArgsOk (storeArg advArgs currentArg currentValue) buf sr
        else if inValue \<and> valueStart = pos sr - 1 \<and>
                (ch = SymArgDoubleQuote \<or> ch = SymArgSingleQuote) then
          (case parseQuotedArg ch sr of
             Inl e \<Rightarrow> AdvArgsErr e
           | Inr (quotedValue, sr1) \<Rightarrow>
               parseAdvArgs_loop J advArgs inValue currentArg quotedValue valueStart
                 (buf @ [ch]) sr1)
        else if inValue \<and> ch = SymJSONStart \<and> valueStart = pos sr - 1 then
          (case parseJSONArg J sr of
             Inl e \<Rightarrow> AdvArgsErr e
           | Inr (jsonValue, sr1) \<Rightarrow>
               parseAdvArgs_loop J advArgs inValue currentArg jsonValue valueStart
                 (buf @ [ch]) sr1)
        else if inValue \<and> ch = SymEscapeSeq then
          (case peek sr of
             (Inl e, sr1) \<Rightarrow> AdvArgsErr e
           | (Inr nextRaw, sr1) \<Rightarrow>
               (case parseEscapeSeq sr1 of (next, sr2) \<Rightarrow>
                  if next = [] then
                    parseAdvArgs_loop J advArgs inValue currentArg
                      (currentValue @ [SymEscapeSeq]) valueStart (buf @ [ch]) sr2
                  else
                    parseAdvArgs_loop J advArgs inValue currentArg
                      (currentValue @ next) valueStart (buf @ [ch, nextRaw]) sr2))
        else
          (case checkEndOfCmd ch sr of
             Inl e \<Rightarrow> AdvArgsErr e
           | Inr (eoc, sr1) \<Rightarrow>
               if eoc then
                 AdvArgsOk (storeArg advArgs currentArg currentValue) (buf @ [ch]) sr1
               else if ch = SymAdvArgSep then
                 parseAdvArgs_loop J (storeArg advArgs currentArg currentValue) False [] []
                   valueStart (buf @ [ch]) sr1
               else if ch = SymAdvArgEq \<and> \<not> inValue then
                 parseAdvArgs_loop J advArgs True currentArg currentValue (pos sr1)
                   (buf @ [ch]) sr1
               else if inValue then
                 (if ch = SymExpressionStart then
                    (case parseExpression sr1 of
                       Inl e \<Rightarrow> AdvArgsErr e
                     | Inr (exprValue, sr2) \<Rightarrow>
                         parseAdvArgs_loop J advArgs inValue currentArg
                           (currentValue @ exprValue) valueStart (buf @ [ch]) sr2)
                  else
                    parseAdvArgs_loop J advArgs inValue currentArg
                      (currentValue @ [ch]) valueStart (buf @ [ch]) sr1)
               else if \<not> isAdvArgName ch then AdvArgsInvalidName (buf @ [ch]) sr1
               else
                 parseAdvArgs_loop J advArgs inValue (currentArg @ [ch]) currentValue
                   valueStart (buf @ [ch]) sr1))"
  by pat_completeness auto

termination parseAdvArgs_loop
  by (relation "measure (\<lambda>(J, advArgs, inValue, currentArg, currentValue, valueStart, buf, sr).
        length (rest sr))")
     (auto dest!: read_shrinks_sym parseEscapeSeq_len_sym parseExpression_len peek_rest_sym
        parseQuotedArg_len parseJSONArg_len checkEndOfCmd_len)

declare parseAdvArgs_loop.simps [simp del]

definition parseAdvArgs :: "'j json_codec \<Rightarrow> ScriptReader \<Rightarrow> advargs_result" where
  "parseAdvArgs J sr = parseAdvArgs_loop J Map.empty False [] [] (- 1) [] sr"

lemma parseAdvArgs_loop_len_ok:
  "parseAdvArgs_loop J a i ca cv vs buf sr = AdvArgsOk m b sr' \<Longrightarrow>
   length (rest sr') \<le> length (rest sr)"
proof (induction "length (rest sr)" arbitrary: a i ca cv vs buf sr rule: less_induct)
  case less
  note IH = less.hyps [rotated]
  show ?case using less.prems
    by (subst (asm) parseAdvArgs_loop.simps)
       (auto split: prod.splits if_splits sum.splits
          elim!: readE dest!: parseEscapeSeq_len parseExpression_len peek_rest
            parseQuotedArg_len parseJSONArg_len checkEndOfCmd_len IH)
qed

lemma parseAdvArgs_loop_len_inv:
  "parseAdvArgs_loop J a i ca cv vs buf sr = AdvArgsInvalidName b sr' \<Longrightarrow>
   length (rest sr') \<le> length (rest sr)"
proof (induction "length (rest sr)" arbitrary: a i ca cv vs buf sr rule: less_induct)
  case less
  note IH = less.hyps [rotated]
  show ?case using less.prems
    by (subst (asm) parseAdvArgs_loop.simps)
       (auto split: prod.splits if_splits sum.splits
          elim!: readE dest!: parseEscapeSeq_len parseExpression_len peek_rest
            parseQuotedArg_len parseJSONArg_len checkEndOfCmd_len IH)
qed

lemma parseAdvArgs_len_ok:
  "parseAdvArgs J sr = AdvArgsOk m b sr' \<Longrightarrow> length (rest sr') \<le> length (rest sr)"
  unfolding parseAdvArgs_def by (rule parseAdvArgs_loop_len_ok)

lemma parseAdvArgs_len_inv:
  "parseAdvArgs J sr = AdvArgsInvalidName b sr' \<Longrightarrow> length (rest sr') \<le> length (rest sr)"
  unfolding parseAdvArgs_def by (rule parseAdvArgs_loop_len_inv)

section \<open>Positional-argument scanner (args.go)\<close>

text \<open>The code after \<^verbatim>\<open>argsLoop\<close>: the last argument is trimmed and appended.\<close>

definition parseArgs_finish :: "bool \<Rightarrow> gostring list \<Rightarrow> gostring \<Rightarrow> gostring list" where
  "parseArgs_finish onlyAdvArgs args currentArg =
     (if \<not> onlyAdvArgs then args @ [TrimSpace currentArg]
      else if TrimSpace currentArg \<noteq> [] then args @ [TrimSpace currentArg]
      else args)"

function parseArgs_loop ::
  "'j json_codec \<Rightarrow> bool \<Rightarrow> bool \<Rightarrow> gostring list \<Rightarrow> gostring \<Rightarrow> int \<Rightarrow> ScriptReader \<Rightarrow>
   error + (gostring list \<times> advargs \<times> ScriptReader)" where
  "parseArgs_loop J onlyAdvArgs onlyOneArg args currentArg argStart sr0 =
     (case read sr0 of (ch, sr) \<Rightarrow>
        if ch = eof then Inr (parseArgs_finish onlyAdvArgs args currentArg, Map.empty, sr)
        else if argStart = pos sr - 1 \<and> (ch = SymArgDoubleQuote \<or> ch = SymArgSingleQuote) then
          (case parseQuotedArg ch sr of
             Inl e \<Rightarrow> Inl e
           | Inr (quotedArg, sr1) \<Rightarrow>
               parseArgs_loop J onlyAdvArgs onlyOneArg args quotedArg argStart sr1)
        else if argStart = pos sr - 1 \<and> ch = SymJSONStart then
          (case parseJSONArg J sr of
             Inl e \<Rightarrow> Inl e
           | Inr (jsonArg, sr1) \<Rightarrow>
               parseArgs_loop J onlyAdvArgs onlyOneArg args jsonArg argStart sr1)
        else if ch = SymEscapeSeq then
          (case parseEscapeSeq sr of (next, sr1) \<Rightarrow>
             if next = [] then
               parseArgs_loop J onlyAdvArgs onlyOneArg args (currentArg @ [SymEscapeSeq])
                 argStart sr1
             else
               parseArgs_loop J onlyAdvArgs onlyOneArg args (currentArg @ next) argStart sr1)
        else
          (case checkEndOfCmd ch sr of
             Inl e \<Rightarrow> Inl e
           | Inr (eoc, sr1) \<Rightarrow>
               if eoc then Inr (parseArgs_finish onlyAdvArgs args currentArg, Map.empty, sr1)
               else if \<not> onlyOneArg \<and> ch = SymArgSep then
                 parseArgs_loop J onlyAdvArgs onlyOneArg (args @ [TrimSpace currentArg]) []
                   (pos sr1) sr1
               else if ch = SymAdvArgStart then
                 (case parseAdvArgs J sr1 of
                    AdvArgsInvalidName buf sr2 \<Rightarrow>
                      parseArgs_loop J onlyAdvArgs onlyOneArg args
                        (currentArg @ SymAdvArgStart # buf) argStart sr2
                  | AdvArgsErr e \<Rightarrow> Inl e
                  | AdvArgsOk newAdvArgs buf sr2 \<Rightarrow>
                      Inr (parseArgs_finish onlyAdvArgs args currentArg, newAdvArgs, sr2))
               else if ch = SymExpressionStart then
                 (case parseExpression sr1 of
                    Inl e \<Rightarrow> Inl e
                  | Inr (exprValue, sr2) \<Rightarrow>
                      parseArgs_loop J onlyAdvArgs onlyOneArg args (currentArg @ exprValue)
                        argStart sr2)
               else
                 parseArgs_loop J onlyAdvArgs onlyOneArg args (currentArg @ [ch]) argStart sr1))"
  by pat_completeness auto

termination parseArgs_loop
  by (relation "measure (\<lambda>(J, onlyAdvArgs, onlyOneArg, args, currentArg, argStart, sr).
        length (rest sr))")
     (auto dest!: read_shrinks_sym parseEscapeSeq_len_sym parseExpression_len
        parseQuotedArg_len parseJSONArg_len checkEndOfCmd_len parseAdvArgs_len_inv)

declare parseArgs_loop.simps [simp del]

definition parseArgs ::
  "'j json_codec \<Rightarrow> gostring \<Rightarrow> bool \<Rightarrow> bool \<Rightarrow> ScriptReader \<Rightarrow>
   error + (gostring list \<times> advargs \<times> ScriptReader)" where
  "parseArgs J prefix onlyAdvArgs onlyOneArg sr =
     parseArgs_loop J onlyAdvArgs onlyOneArg [] prefix (pos sr) sr"

lemma parseArgs_loop_len:
  "parseArgs_loop J oa oo args cur st sr = Inr (as, m, sr') \<Longrightarrow>
   length (rest sr') \<le> length (rest sr)"
proof (induction "length (rest sr)" arbitrary: oa oo args cur st sr rule: less_induct)
  case less
  note IH = less.hyps [rotated]
  show ?case using less.prems
    by (subst (asm) parseArgs_loop.simps)
       (auto split: prod.splits if_splits sum.splits advargs_result.splits
          elim!: readE dest!: parseEscapeSeq_len parseExpression_len
            parseQuotedArg_len parseJSONArg_len checkEndOfCmd_len
            parseAdvArgs_len_inv parseAdvArgs_len_ok IH)
qed

lemma parseArgs_loop_shrinks:
  "parseArgs_loop J oa oo args cur st sr = Inr (as, m, sr') \<Longrightarrow>
   rest sr = c # cs \<Longrightarrow> c \<noteq> eof \<Longrightarrow> length (rest sr') < length (rest sr)"
  by (subst (asm) parseArgs_loop.simps)
     (auto split: prod.splits if_splits sum.splits advargs_result.splits
        elim!: readE dest!: parseEscapeSeq_len parseExpression_len
          parseQuotedArg_len parseJSONArg_len checkEndOfCmd_len
          parseAdvArgs_len_inv parseAdvArgs_len_ok parseArgs_loop_len)

lemma parseArgs_len:
  "parseArgs J prefix oa oo sr = Inr (as, m, sr') \<Longrightarrow> length (rest sr') \<le> length (rest sr)"
  unfolding parseArgs_def by (rule parseArgs_loop_len)

section \<open>Input-macro scanner (args.go)\<close>

text \<open>The inner loop of \<^verbatim>\<open>parseInputMacroArg\<close> that collects an extended macro.\<close>

function parseInputMacroExt_loop ::
  "gostring \<Rightarrow> ScriptReader \<Rightarrow> error + (gostring \<times> ScriptReader)" where
  "parseInputMacroExt_loop extBuilder sr0 =
     (case read sr0 of (next, sr) \<Rightarrow>
        if next = eof then Inl ErrUnmatchedInputMacroExt
        else if next = SymInputMacroExtEnd then Inr (extBuilder @ [next], sr)
        else parseInputMacroExt_loop (extBuilder @ [next]) sr)"
  by pat_completeness auto

termination parseInputMacroExt_loop
  by (relation "measure (\<lambda>(extBuilder, sr). length (rest sr))")
     (auto dest!: read_shrinks_sym)

declare parseInputMacroExt_loop.simps [simp del]

lemma parseInputMacroExt_loop_len:
  "parseInputMacroExt_loop b sr = Inr (v, sr') \<Longrightarrow> length (rest sr') \<le> length (rest sr)"
proof (induction "length (rest sr)" arbitrary: b sr rule: less_induct)
  case less
  note IH = less.hyps [rotated]
  show ?case using less.prems
    by (subst (asm) parseInputMacroExt_loop.simps)
       (auto split: prod.splits if_splits elim!: readE dest!: IH)
qed

function parseInputMacroArg_loop ::
  "'j json_codec \<Rightarrow> gostring list \<Rightarrow> ScriptReader \<Rightarrow>
   error + (gostring list \<times> advargs \<times> ScriptReader)" where
  "parseInputMacroArg_loop J args sr0 =
     (case read sr0 of (ch, sr) \<Rightarrow>
        if ch = eof then Inr (args, Map.empty, sr)
        else if ch = SymInputMacroEscapeSeq then
          (case read sr of (next, sr1) \<Rightarrow>
             if next = eof then Inr (args @ [[SymInputMacroEscapeSeq]], Map.empty, sr1)
             else parseInputMacroArg_loop J (args @ [[next]]) sr1)
        else
          (case checkEndOfCmd ch sr of
             Inl e \<Rightarrow> Inl e
           | Inr (eoc, sr1) \<Rightarrow>
               if eoc then Inr (args, Map.empty, sr1)
               else if ch = SymInputMacroExtStart then
                 (case parseInputMacroExt_loop [] sr1 of
                    Inl e \<Rightarrow> Inl e
                  | Inr (extBuilder, sr2) \<Rightarrow>
                      parseInputMacroArg_loop J (args @ [ch # extBuilder]) sr2)
               else if ch = SymAdvArgStart then
                 (case parseAdvArgs J sr1 of
                    AdvArgsInvalidName buf sr2 \<Rightarrow>
                      parseInputMacroArg_loop J
                        (args @ map (\<lambda>c. [c]) (SymAdvArgStart # buf)) sr2
                  | AdvArgsErr e \<Rightarrow> Inl e
                  | AdvArgsOk newAdvArgs buf sr2 \<Rightarrow> Inr (args, newAdvArgs, sr2))
               else parseInputMacroArg_loop J (args @ [[ch]]) sr1))"
  by pat_completeness auto

termination parseInputMacroArg_loop
  by (relation "measure (\<lambda>(J, args, sr). length (rest sr))")
     (auto dest!: read_measure checkEndOfCmd_len parseAdvArgs_len_inv
        parseInputMacroExt_loop_len)

declare parseInputMacroArg_loop.simps [simp del]

definition parseInputMacroArg ::
  "'j json_codec \<Rightarrow> ScriptReader \<Rightarrow> error + (gostring list \<times> advargs \<times> ScriptReader)" where
  "parseInputMacroArg J sr = parseInputMacroArg_loop J [] sr"

lemma parseInputMacroArg_loop_len:
  "parseInputMacroArg_loop J args sr = Inr (as, m, sr') \<Longrightarrow>
   length (rest sr') \<le> length (rest sr)"
proof (induction "length (rest sr)" arbitrary: args sr rule: less_induct)
  case less
  note IH = less.hyps [rotated]
  show ?case using less.prems
    by (subst (asm) parseInputMacroArg_loop.simps)
       (auto split: prod.splits if_splits sum.splits advargs_result.splits
          elim!: readE dest!: checkEndOfCmd_len parseInputMacroExt_loop_len
            parseAdvArgs_len_inv parseAdvArgs_len_ok IH)
qed

lemma parseInputMacroArg_len:
  "parseInputMacroArg J sr = Inr (as, m, sr') \<Longrightarrow> length (rest sr') \<le> length (rest sr)"
  unfolding parseInputMacroArg_def by (rule parseInputMacroArg_loop_len)

section \<open>Commands and scripts (reader.go)\<close>

text \<open>
  \<^verbatim>\<open>AdvArgs\<close> wraps a map that may be nil: \<open>None\<close> is the zero value \<^verbatim>\<open>AdvArgs{}\<close>.  A nil and
  an empty \<^verbatim>\<open>Args\<close> slice are both \<open>[]\<close>.  A trait value is the \<^verbatim>\<open>any\<close> stored in
  \<^verbatim>\<open>Script.Traits\<close>: a string, an \<^verbatim>\<open>int64\<close>, a \<^verbatim>\<open>float64\<close> (of an abstract type \<open>'f\<close>, produced
  only by \<^verbatim>\<open>strconv.ParseFloat\<close>), a bool or a list of such values.
\<close>

datatype 'f trait =
    TString gostring
  | TInt int
  | TFloat 'f
  | TBool bool
  | TArray "'f trait list"

record Command =
  AdvArgs :: "advargs option"
  Name :: gostring
  Args :: "gostring list"

record 'f Script =
  Traits :: "(gostring \<rightharpoonup> 'f trait) option"
  Cmds :: "Command list"

definition NewAdvArgs :: "advargs \<Rightarrow> advargs option" where
  "NewAdvArgs m = Some m"

text \<open>
  Modelled from the spec: the command-name constants \<^verbatim>\<open>ZapScriptCmdLaunch\<close>,
  \<^verbatim>\<open>ZapScriptCmdLaunchTitle\<close>, \<^verbatim>\<open>ZapScriptCmdInputKeyboard\<close> and \<^verbatim>\<open>ZapScriptCmdInputGamepad\<close>
  are declared in a file that is not among the sources.  The spec names the auto-launch
  command \<^verbatim>\<open>launch\<close> and the media-title command \<^verbatim>\<open>launch.title\<close>; the tests and the README
  name the two input commands \<^verbatim>\<open>input.keyboard\<close> and \<^verbatim>\<open>input.gamepad\<close>.
\<close>

definition ZapScriptCmdLaunch :: gostring where
  "ZapScriptCmdLaunch = str ''launch''"

definition ZapScriptCmdLaunchTitle :: gostring where
  "ZapScriptCmdLaunchTitle = str ''launch.title''"

definition ZapScriptCmdInputKeyboard :: gostring where
  "ZapScriptCmdInputKeyboard = str ''input.keyboard''"

definition ZapScriptCmdInputGamepad :: gostring where
  "ZapScriptCmdInputGamepad = str ''input.gamepad''"

definition isInputMacroCmd :: "gostring \<Rightarrow> bool" where
  "isInputMacroCmd name \<longleftrightarrow>
     name = ZapScriptCmdInputKeyboard \<or> name = ZapScriptCmdInputGamepad"

section \<open>Media-title scanner (parser.go)\<close>

record mediaTitleParseResult =
  mt_advArgs :: advargs
  mt_rawContent :: gostring
  mt_valid :: bool

function parseMediaTitle_loop ::
  "'j json_codec \<Rightarrow> gostring \<Rightarrow> ScriptReader \<Rightarrow> error + (advargs \<times> gostring \<times> ScriptReader)" where
  "parseMediaTitle_loop J contentBuilder sr0 =
     (case read sr0 of (ch, sr) \<Rightarrow>
        if ch = eof then Inr (Map.empty, contentBuilder, sr)
        else if ch = SymEscapeSeq then
          (case parseEscapeSeq sr of (next, sr1) \<Rightarrow>
             if next = [] then parseMediaTitle_loop J (contentBuilder @ [SymEscapeSeq]) sr1
             else parseMediaTitle_loop J (contentBuilder @ next) sr1)
        else
          (case checkEndOfCmd ch sr of
             Inl e \<Rightarrow> Inl e
           | Inr (eoc, sr1) \<Rightarrow>
               if eoc then Inr (Map.empty, contentBuilder, sr1)
               else if ch = SymAdvArgStart then
                 (case parseAdvArgs J sr1 of
                    AdvArgsInvalidName buf sr2 \<Rightarrow>
                      parseMediaTitle_loop J (contentBuilder @ SymAdvArgStart # buf) sr2
                  | AdvArgsErr e \<Rightarrow> Inl e
                  | AdvArgsOk parsedAdvArgs buf sr2 \<Rightarrow>
                      Inr (parsedAdvArgs, contentBuilder, sr2))
               else parseMediaTitle_loop J (contentBuilder @ [ch]) sr1))"
  by pat_completeness auto

termination parseMediaTitle_loop
  by (relation "measure (\<lambda>(J, contentBuilder, sr). length (rest sr))")
     (auto dest!: read_measure parseEscapeSeq_len_sym checkEndOfCmd_len parseAdvArgs_len_inv)

declare parseMediaTitle_loop.simps [simp del]

text \<open>
  The validation after the loop.  \<^verbatim>\<open>strings.Index\<close> finds the first separator;
  \<^verbatim>\<open>rawContent[:sepIdx]\<close> is what precedes it and \<^verbatim>\<open>rawContent[sepIdx+1:]\<close> what follows it.
\<close>

definition parseMediaTitleSyntax ::
  "'j json_codec \<Rightarrow> ScriptReader \<Rightarrow> error + (mediaTitleParseResult \<times> ScriptReader)" where
  "parseMediaTitleSyntax J sr =
     (case parseMediaTitle_loop J [] sr of
        Inl e \<Rightarrow> Inl e
      | Inr (parsedAdvArgs, contentBuilder, sr1) \<Rightarrow>
          (let raw = TrimSpace contentBuilder;
               systemID = TrimSpace (takeWhile (\<lambda>c. c \<noteq> SymMediaTitleSep) raw);
               gameName = TrimSpace (tl (dropWhile (\<lambda>c. c \<noteq> SymMediaTitleSep) raw))
           in if SymMediaTitleSep \<notin> set raw then
                Inr (\<lparr>mt_advArgs = parsedAdvArgs, mt_rawContent = raw, mt_valid = False\<rparr>, sr1)
              else if systemID = [] \<or> gameName = [] then
                Inr (\<lparr>mt_advArgs = parsedAdvArgs, mt_rawContent = raw, mt_valid = False\<rparr>, sr1)
              else
                Inr (\<lparr>mt_advArgs = parsedAdvArgs, mt_rawContent = raw, mt_valid = True\<rparr>, sr1)))"

lemma parseMediaTitle_loop_len:
  "parseMediaTitle_loop J cb sr = Inr (m, c, sr') \<Longrightarrow> length (rest sr') \<le> length (rest sr)"
proof (induction "length (rest sr)" arbitrary: cb sr rule: less_induct)
  case less
  note IH = less.hyps [rotated]
  show ?case using less.prems
    by (subst (asm) parseMediaTitle_loop.simps)
       (auto split: prod.splits if_splits sum.splits advargs_result.splits
          elim!: readE dest!: parseEscapeSeq_len checkEndOfCmd_len
            parseAdvArgs_len_inv parseAdvArgs_len_ok IH)
qed

lemma parseMediaTitleSyntax_len:
  "parseMediaTitleSyntax J sr = Inr (r, sr') \<Longrightarrow> length (rest sr') \<le> length (rest sr)"
  by (auto simp: parseMediaTitleSyntax_def Let_def split: sum.splits if_splits
      dest!: parseMediaTitle_loop_len)

section \<open>Command scanner (parser.go)\<close>

text \<open>
  \<^verbatim>\<open>parseCommand\<close> returns \<^verbatim>\<open>(cmd, buf, err)\<close>.  As with \<^verbatim>\<open>parseAdvArgs\<close>, the caller keeps
  reading after \<^verbatim>\<open>ErrInvalidCmdName\<close>, which only \<^verbatim>\<open>parseCommand\<close> itself raises, and returns
  every other error.
\<close>

datatype command_result =
    CmdOk Command gostring ScriptReader
  | CmdInvalidName gostring ScriptReader
  | CmdErr error

text \<open>The code after \<^verbatim>\<open>commandLoop\<close>.\<close>

definition parseCommand_finish ::
  "gostring \<Rightarrow> gostring list \<Rightarrow> advargs option \<Rightarrow> gostring \<Rightarrow> ScriptReader \<Rightarrow> command_result" where
  "parseCommand_finish name args adv buf sr =
     (if name = [] then CmdErr ErrEmptyCmdName
      else CmdOk \<lparr>AdvArgs = adv, Name = ToLower name, Args = args\<rparr> buf sr)"

function parseCommand_loop ::
  "'j json_codec \<Rightarrow> bool \<Rightarrow> gostring \<Rightarrow> gostring \<Rightarrow> ScriptReader \<Rightarrow> command_result" where
  "parseCommand_loop J onlyOneArg name buf sr0 =
     (case read sr0 of (ch, sr) \<Rightarrow>
        if ch = eof then parseCommand_finish name [] None buf sr
        else
          (case checkEndOfCmd ch sr of
             Inl e \<Rightarrow> CmdErr e
           | Inr (eoc, sr1) \<Rightarrow>
               if eoc then parseCommand_finish name [] None (buf @ [ch]) sr1
               else if isCmdName ch then
                 parseCommand_loop J onlyOneArg (name @ [ch]) (buf @ [ch]) sr1
               else if ch = SymArgStart \<or> ch = SymAdvArgStart then
                 (if name = [] then parseCommand_finish name [] None (buf @ [ch]) sr1
                  else
                    (case (if ch = SymAdvArgStart then unread sr1 else Inr sr1) of
                       Inl e \<Rightarrow> CmdErr e
                     | Inr sr2 \<Rightarrow>
                         (case (if isInputMacroCmd name then parseInputMacroArg J sr2
                                else parseArgs J [] (ch = SymAdvArgStart) onlyOneArg sr2) of
                            Inl e \<Rightarrow> CmdErr e
                          | Inr (args, advArgs, sr3) \<Rightarrow>
                              parseCommand_finish name args
                                (if advArgs \<noteq> Map.empty then NewAdvArgs advArgs else None)
                                (buf @ [ch]) sr3)))
               else CmdInvalidName (buf @ [ch]) sr1))"
  by pat_completeness auto

termination parseCommand_loop
  by (relation "measure (\<lambda>(J, onlyOneArg, name, buf, sr). length (rest sr))")
     (auto dest!: read_measure checkEndOfCmd_len)

declare parseCommand_loop.simps [simp del]

definition parseCommand :: "'j json_codec \<Rightarrow> bool \<Rightarrow> ScriptReader \<Rightarrow> command_result" where
  "parseCommand J onlyOneArg sr = parseCommand_loop J onlyOneArg [] [] sr"

lemma unread_len:
  "unread sr = Inr sr' \<Longrightarrow> lastRune sr = Some ch \<Longrightarrow> rest sr' = ch # rest sr"
  by (auto simp: unread_def split: option.splits)

lemma checkEndOfCmd_facts:
  "checkEndOfCmd ch sr = Inr (b, sr1) \<Longrightarrow>
   length (rest sr1) \<le> length (rest sr) \<and> (ch \<noteq> SymCmdSep \<longrightarrow> sr1 = sr)"
  by (rule conjI, erule checkEndOfCmd_len) (auto simp: checkEndOfCmd_def)

lemma parseCommand_loop_len_ok:
  "parseCommand_loop J oo name buf sr = CmdOk c b sr' \<Longrightarrow>
   length (rest sr') \<le> length (rest sr)"
proof (induction "length (rest sr)" arbitrary: name buf sr rule: less_induct)
  case less
  note IH = less.hyps [rotated]
  show ?case using less.prems
    by (subst (asm) parseCommand_loop.simps)
       (auto simp: parseCommand_finish_def SymAdvArgStart_def SymCmdSep_def
          split: prod.splits if_splits sum.splits
          elim!: readE
          dest!: checkEndOfCmd_facts [unfolded SymCmdSep_def]
            parseArgs_len parseInputMacroArg_len IH
          dest: unread_len)
qed

lemma parseCommand_loop_len_inv:
  "parseCommand_loop J oo name buf sr = CmdInvalidName b sr' \<Longrightarrow>
   length (rest sr') \<le> length (rest sr)"
proof (induction "length (rest sr)" arbitrary: name buf sr rule: less_induct)
  case less
  note IH = less.hyps [rotated]
  show ?case using less.prems
    by (subst (asm) parseCommand_loop.simps)
       (auto simp: parseCommand_finish_def
          split: prod.splits if_splits sum.splits
          elim!: readE dest!: checkEndOfCmd_len IH)
qed

lemma parseCommand_len_ok:
  "parseCommand J oo sr = CmdOk c b sr' \<Longrightarrow> length (rest sr') \<le> length (rest sr)"
  unfolding parseCommand_def by (rule parseCommand_loop_len_ok)

lemma parseCommand_len_inv:
  "parseCommand J oo sr = CmdInvalidName b sr' \<Longrightarrow> length (rest sr') \<le> length (rest sr)"
  unfolding parseCommand_def by (rule parseCommand_loop_len_inv)

section \<open>Top-level script dispatcher (parser.go)\<close>

text \<open>
  The closure \<^verbatim>\<open>parseAutoLaunchCmd\<close> of \<^verbatim>\<open>ParseScript\<close>: it appends a \<^verbatim>\<open>launch\<close> command to
  the script.
\<close>

definition parseAutoLaunchCmd ::
  "'j json_codec \<Rightarrow> gostring \<Rightarrow> 'f Script \<Rightarrow> ScriptReader \<Rightarrow> error + ('f Script \<times> ScriptReader)" where
  "parseAutoLaunchCmd J prefix script sr =
     (case parseArgs J prefix False True sr of
        Inl e \<Rightarrow> Inl e
      | Inr (args, advArgs, sr1) \<Rightarrow>
          Inr (script\<lparr>Cmds := Cmds script @
                 [\<lparr>AdvArgs = (if advArgs \<noteq> Map.empty then NewAdvArgs advArgs else None),
                   Name = ZapScriptCmdLaunch, Args = args\<rparr>]\<rparr>, sr1))"

lemma parseAutoLaunchCmd_len:
  "parseAutoLaunchCmd J prefix script sr = Inr (script', sr') \<Longrightarrow>
   length (rest sr') \<le> length (rest sr)"
  by (auto simp: parseAutoLaunchCmd_def split: sum.splits dest!: parseArgs_len)

lemma parseAutoLaunchCmd_shrinks:
  "parseAutoLaunchCmd J prefix script sr = Inr (script', sr') \<Longrightarrow>
   rest sr = c # cs \<Longrightarrow> c \<noteq> eof \<Longrightarrow> length (rest sr') < length (rest sr)"
  by (auto simp: parseAutoLaunchCmd_def parseArgs_def split: sum.splits
      dest!: parseArgs_loop_shrinks)

text \<open>
  The loop of \<^verbatim>\<open>ParseScript\<close>.  The script returned together with an error is not
  represented: a failed parse is \<open>Inl\<close> of the error.
\<close>

function ParseScript_loop ::
  "'j json_codec \<Rightarrow> 'f Script \<Rightarrow> ScriptReader \<Rightarrow> error + 'f Script" where
  "ParseScript_loop J script sr0 =
     (case read sr0 of (ch, sr) \<Rightarrow>
        if ch = eof then
          (if Cmds script = [] then Inl ErrEmptyZapScript else Inr script)
        else if isWhitespace ch then ParseScript_loop J script sr
        else if pos sr = 1 \<and> ch = SymJSONStart then Inl ErrInvalidJSON
        else if ch = SymMediaTitleStart then
          (case parseMediaTitleSyntax J sr of
             Inl e \<Rightarrow> Inl e
           | Inr (result, sr1) \<Rightarrow>
               if \<not> mt_valid result then
                 (case parseAutoLaunchCmd J (SymMediaTitleStart # mt_rawContent result)
                         script sr1 of
                    Inl e \<Rightarrow> Inl e
                  | Inr (script1, sr2) \<Rightarrow> ParseScript_loop J script1 sr2)
               else
                 ParseScript_loop J
                   (script\<lparr>Cmds := Cmds script @
                      [\<lparr>AdvArgs = (if mt_advArgs result \<noteq> Map.empty
                                    then NewAdvArgs (mt_advArgs result) else None),
                        Name = ZapScriptCmdLaunchTitle,
                        Args = [mt_rawContent result]\<rparr>]\<rparr>)
                   sr1)
        else if ch = SymCmdStart then
          (case peek sr of
             (Inl e, sr1) \<Rightarrow> Inl e
           | (Inr next, sr1) \<Rightarrow>
               if next = eof then Inl ErrUnexpectedEOF
               else if next = SymCmdStart then
                 (case parseCommand J False (skip sr1) of
                    CmdInvalidName buf sr2 \<Rightarrow>
                      (case parseAutoLaunchCmd J (SymCmdStart # SymCmdStart # buf) script sr2 of
                         Inl e \<Rightarrow> Inl e
                       | Inr (script1, sr3) \<Rightarrow> ParseScript_loop J script1 sr3)
                  | CmdErr e \<Rightarrow> Inl e
                  | CmdOk cmd buf sr2 \<Rightarrow>
                      ParseScript_loop J (script\<lparr>Cmds := Cmds script @ [cmd]\<rparr>) sr2)
               else
                 (case parseAutoLaunchCmd J [SymCmdStart] script sr1 of
                    Inl e \<Rightarrow> Inl e
                  | Inr (script1, sr2) \<Rightarrow> ParseScript_loop J script1 sr2))
        else
          (case unread sr of
             Inl e \<Rightarrow> Inl e
           | Inr sr1 \<Rightarrow>
               (case parseAutoLaunchCmd J [] script sr1 of
                  Inl e \<Rightarrow> Inl e
                | Inr (script1, sr2) \<Rightarrow> ParseScript_loop J script1 sr2)))"
  by pat_completeness auto

lemma read_unread:
  "(ch, sr) = read sr0 \<Longrightarrow> ch \<noteq> eof \<Longrightarrow> unread sr = Inr sr1 \<Longrightarrow>
   rest sr1 = ch # tl (rest sr0) \<and> rest sr0 = ch # tl (rest sr0)"
  by (auto simp: read_def unread_def split: list.splits option.splits)

lemma default_branch_shrinks:
  assumes "(ch, sr) = read sr0" "ch \<noteq> eof" "unread sr = Inr sr1"
    and "parseAutoLaunchCmd J prefix script sr1 = Inr (script', sr2)"
  shows "length (rest sr2) < length (rest sr0)"
proof -
  from read_unread [OF assms(1-3)]
  have a: "rest sr1 = ch # tl (rest sr0)" and b: "rest sr0 = ch # tl (rest sr0)" by simp_all
  from parseAutoLaunchCmd_shrinks [OF assms(4) a assms(2)]
  have "length (rest sr2) < length (rest sr1)" .
  with a b show ?thesis by simp
qed

lemma star_invalid_shrinks:
  assumes "(x, y) = read sr0" "x \<noteq> eof" "(xa, ya) = peek y"
    and "parseCommand J False (skip ya) = CmdInvalidName buf sr2"
    and "parseAutoLaunchCmd J p script sr2 = Inr (script', sr3)"
  shows "length (rest sr3) < length (rest sr0)"
proof -
  have "length (rest y) < length (rest sr0)" using read_measure [OF assms(1)] assms(2) by simp
  moreover have "rest ya = rest y" using assms(3) by (rule peek_rest_sym)
  moreover have "length (rest (skip ya)) \<le> length (rest ya)" by (rule skip_len)
  moreover have "length (rest sr2) \<le> length (rest (skip ya))"
    using assms(4) by (rule parseCommand_len_inv)
  moreover have "length (rest sr3) \<le> length (rest sr2)"
    using assms(5) by (rule parseAutoLaunchCmd_len)
  ultimately show ?thesis by simp
qed

lemma star_ok_shrinks:
  assumes "(x, y) = read sr0" "x \<noteq> eof" "(xa, ya) = peek y"
    and "parseCommand J False (skip ya) = CmdOk cmd buf sr2"
  shows "length (rest sr2) < length (rest sr0)"
proof -
  have "length (rest y) < length (rest sr0)" using read_measure [OF assms(1)] assms(2) by simp
  moreover have "rest ya = rest y" using assms(3) by (rule peek_rest_sym)
  moreover have "length (rest (skip ya)) \<le> length (rest ya)" by (rule skip_len)
  moreover have "length (rest sr2) \<le> length (rest (skip ya))"
    using assms(4) by (rule parseCommand_len_ok)
  ultimately show ?thesis by simp
qed

termination ParseScript_loop
  apply (relation "measure (\<lambda>(J, script, sr). length (rest sr))")
         apply simp
        apply (auto dest!: read_measure)[1]
       apply (auto dest!: read_measure parseMediaTitleSyntax_len parseAutoLaunchCmd_len)[1]
      apply (auto dest!: read_measure parseMediaTitleSyntax_len)[1]
     apply (auto dest: star_ok_shrinks)[1]
    apply (auto dest: star_invalid_shrinks)[1]
   apply (auto dest!: read_measure peek_rest_sym parseAutoLaunchCmd_len)[1]
  apply (auto dest: default_branch_shrinks)[1]
  done

declare ParseScript_loop.simps [simp del]

definition ParseScript :: "'j json_codec \<Rightarrow> ScriptReader \<Rightarrow> error + 'f Script" where
  "ParseScript J sr = ParseScript_loop J \<lparr>Traits = None, Cmds = []\<rparr> sr"

section \<open>Traits scanner (traits.go)\<close>

text \<open>
  Modelled from the spec: the symbols \<^verbatim>\<open>SymTraitsStart\<close>, \<^verbatim>\<open>SymArrayStart\<close>, \<^verbatim>\<open>SymArrayEnd\<close>,
  \<^verbatim>\<open>SymArraySep\<close> and the predicate \<^verbatim>\<open>isAdvArgNameStart\<close> are used by the traits scanner but
  declared in none of the sources.  The spec introduces traits with \<^verbatim>\<open>#\<close>, writes arrays as
  comma-separated elements between \<^verbatim>\<open>[\<close> and \<^verbatim>\<open>]\<close>, and requires the first character of a
  trait key to be an ASCII letter.
\<close>

definition SymTraitsStart :: rune where "SymTraitsStart = of_char (CHR ''#'')"
definition SymArrayStart :: rune where "SymArrayStart = of_char (CHR ''['')"
definition SymArrayEnd :: rune where "SymArrayEnd = of_char (CHR '']'')"
definition SymArraySep :: rune where "SymArraySep = of_char (CHR '','')"

fun isAdvArgNameStart :: "rune \<Rightarrow> bool" where
  "isAdvArgNameStart ch \<longleftrightarrow>
     (of_char (CHR ''a'') \<le> ch \<and> ch \<le> of_char (CHR ''z'')) \<or>
     (of_char (CHR ''A'') \<le> ch \<and> ch \<le> of_char (CHR ''Z''))"

lemmas trait_sym_defs = SymTraitsStart_def SymArrayStart_def SymArrayEnd_def SymArraySep_def

subsection \<open>Type inference\<close>

text \<open>
  \<^verbatim>\<open>strconv.ParseInt(value, 10, 64)\<close>: an optional sign, then one or more decimal digits
  (no underscores in base 10), and the value must fit a signed 64-bit integer.
\<close>

definition isDigit :: "rune \<Rightarrow> bool" where
  "isDigit c \<longleftrightarrow> of_char (CHR ''0'') \<le> c \<and> c \<le> of_char (CHR ''9'')"

definition digitsValue :: "gostring \<Rightarrow> nat" where
  "digitsValue ds = foldl (\<lambda>acc c. 10 * acc + (c - of_char (CHR ''0''))) 0 ds"

definition ParseInt :: "gostring \<Rightarrow> int option" where
  "ParseInt s =
     (case s of
        [] \<Rightarrow> None
      | c # cs \<Rightarrow>
          (let neg = (c = of_char (CHR ''-''));
               ds = (if c = of_char (CHR ''+'') \<or> c = of_char (CHR ''-'') then cs else s)
           in if ds = [] \<or> \<not> list_all isDigit ds then None
              else if \<not> neg \<and> digitsValue ds \<ge> 2 ^ 63 then None
              else if neg \<and> digitsValue ds > 2 ^ 63 then None
              else Some (if neg then - int (digitsValue ds) else int (digitsValue ds))))"

text \<open>
  \<^verbatim>\<open>inferType\<close>.  \<^verbatim>\<open>strconv.ParseFloat(value, 64)\<close> is a parameter: \<open>PF value\<close> is the
  \<^verbatim>\<open>float64\<close> it returns, or \<open>None\<close> when it returns an error.
\<close>

definition inferType :: "(gostring \<Rightarrow> 'f option) \<Rightarrow> gostring \<Rightarrow> bool \<Rightarrow> 'f trait" where
  "inferType PF v quoted =
     (if quoted then TString v
      else if v = [] then TString []
      else if v = str ''true'' then TBool True
      else if v = str ''false'' then TBool False
      else case ParseInt v of
          Some i \<Rightarrow> TInt i
        | None \<Rightarrow> (case PF v of Some f \<Rightarrow> TFloat f | None \<Rightarrow> TString v))"

subsection \<open>Trait values\<close>

lemma peek_nonempty:
  "(Inr next, sr1) = peek sr \<Longrightarrow> next \<noteq> eof \<Longrightarrow> rest sr1 = rest sr \<and> rest sr \<noteq> []"
  by (auto simp: peek_def split: list.splits if_splits)

lemma peek_read_shrinks:
  "(Inr next, sr1) = peek sr \<Longrightarrow> next \<noteq> eof \<Longrightarrow> (ch, sr2) = read sr1 \<Longrightarrow>
   length (rest sr2) < length (rest sr)"
  by (auto simp: peek_def read_def split: list.splits if_splits)

text \<open>The loop of \<^verbatim>\<open>parseTraitValue\<close> and of \<^verbatim>\<open>parseArrayElement\<close> for a quoted value.\<close>

function parseTraitQuoted_loop ::
  "rune \<Rightarrow> gostring \<Rightarrow> gostring \<Rightarrow> ScriptReader \<Rightarrow>
   error + (gostring \<times> gostring \<times> ScriptReader)" where
  "parseTraitQuoted_loop quoteChar rawBuf valueBuf sr0 =
     (case read sr0 of (ch, sr) \<Rightarrow>
        if ch = eof then Inl ErrUnmatchedQuote
        else if ch = SymEscapeSeq then
          (case peek sr of
             (Inl e, sr1) \<Rightarrow> Inl e
           | (Inr nextRaw, sr1) \<Rightarrow>
               (case parseEscapeSeq sr1 of (escaped, sr2) \<Rightarrow>
                  if escaped = [] then
                    parseTraitQuoted_loop quoteChar (rawBuf @ [ch])
                      (valueBuf @ [SymEscapeSeq]) sr2
                  else
                    parseTraitQuoted_loop quoteChar (rawBuf @ [ch, nextRaw])
                      (valueBuf @ escaped) sr2))
        else if ch = quoteChar then Inr (valueBuf, rawBuf @ [ch], sr)
        else parseTraitQuoted_loop quoteChar (rawBuf @ [ch]) (valueBuf @ [ch]) sr)"
  by pat_completeness auto

termination parseTraitQuoted_loop
  by (relation "measure (\<lambda>(quoteChar, rawBuf, valueBuf, sr). length (rest sr))")
     (auto dest!: read_measure peek_rest_sym parseEscapeSeq_len_sym)

declare parseTraitQuoted_loop.simps [simp del]

text \<open>
  The loop of \<^verbatim>\<open>parseTraitValue\<close> for an unquoted value; it returns the processed value and
  the raw text.
\<close>

function parseTraitUnquoted_loop ::
  "gostring \<Rightarrow> gostring \<Rightarrow> ScriptReader \<Rightarrow> error + (gostring \<times> gostring \<times> ScriptReader)" where
  "parseTraitUnquoted_loop rawBuf valueBuf sr0 =
     (case peek sr0 of
        (Inl e, sr) \<Rightarrow> Inl e
      | (Inr next, sr) \<Rightarrow>
          if next = eof \<or> next = SymCmdSep \<or> isWhitespace next \<or> next = SymTraitsStart then
            Inr (valueBuf, rawBuf, sr)
          else
            (case read sr of (ch, sr1) \<Rightarrow>
               if ch = SymEscapeSeq then
                 (case peek sr1 of
                    (Inl e, sr2) \<Rightarrow> Inl e
                  | (Inr nextRaw, sr2) \<Rightarrow>
                      (case parseEscapeSeq sr2 of (escaped, sr3) \<Rightarrow>
                         if escaped = [] then
                           parseTraitUnquoted_loop (rawBuf @ [ch]) (valueBuf @ [SymEscapeSeq]) sr3
                         else
                           parseTraitUnquoted_loop (rawBuf @ [ch, nextRaw])
                             (valueBuf @ escaped) sr3))
               else parseTraitUnquoted_loop (rawBuf @ [ch]) (valueBuf @ [ch]) sr1))"
  by pat_completeness auto

termination parseTraitUnquoted_loop
  by (relation "measure (\<lambda>(rawBuf, valueBuf, sr). length (rest sr))")
     (auto dest!: read_measure peek_measure parseEscapeSeq_len_sym)

declare parseTraitUnquoted_loop.simps [simp del]

subsection \<open>Trait arrays\<close>

text \<open>The two whitespace-skipping loops of \<^verbatim>\<open>parseTraitArray\<close>.\<close>

function skipArrayWhitespace ::
  "gostring \<Rightarrow> ScriptReader \<Rightarrow> error + (gostring \<times> ScriptReader)" where
  "skipArrayWhitespace rawBuf sr0 =
     (case peek sr0 of
        (Inl e, sr) \<Rightarrow> Inl e
      | (Inr next, sr) \<Rightarrow>
          if \<not> isWhitespace next then Inr (rawBuf, sr)
          else (case read sr of (ch, sr1) \<Rightarrow> skipArrayWhitespace (rawBuf @ [ch]) sr1))"
  by pat_completeness auto

termination skipArrayWhitespace
  by (relation "measure (\<lambda>(rawBuf, sr). length (rest sr))")
     (auto simp: eof_def dest!: read_measure peek_measure)

declare skipArrayWhitespace.simps [simp del]

text \<open>The loop of \<^verbatim>\<open>parseArrayElement\<close> for an unquoted element.\<close>

function parseArrayUnquoted_loop ::
  "gostring \<Rightarrow> gostring \<Rightarrow> ScriptReader \<Rightarrow> error + (gostring \<times> gostring \<times> ScriptReader)" where
  "parseArrayUnquoted_loop rawBuf valueBuf sr0 =
     (case peek sr0 of
        (Inl e, sr) \<Rightarrow> Inl e
      | (Inr next, sr) \<Rightarrow>
          if next = eof \<or> next = SymArraySep \<or> next = SymArrayEnd \<or> isWhitespace next then
            Inr (valueBuf, rawBuf, sr)
          else
            (case read sr of (ch, sr1) \<Rightarrow>
               if ch = SymEscapeSeq then
                 (case peek sr1 of
                    (Inl e, sr2) \<Rightarrow> Inl e
                  | (Inr nextRaw, sr2) \<Rightarrow>
                      (case parseEscapeSeq sr2 of (escaped, sr3) \<Rightarrow>
                         if escaped = [] then
                           parseArrayUnquoted_loop (rawBuf @ [ch]) (valueBuf @ [SymEscapeSeq]) sr3
                         else
                           parseArrayUnquoted_loop (rawBuf @ [ch, nextRaw])
                             (valueBuf @ escaped) sr3))
               else parseArrayUnquoted_loop (rawBuf @ [ch]) (valueBuf @ [ch]) sr1))"
  by pat_completeness auto

termination parseArrayUnquoted_loop
  by (relation "measure (\<lambda>(rawBuf, valueBuf, sr). length (rest sr))")
     (auto dest!: read_measure peek_measure parseEscapeSeq_len_sym)

declare parseArrayUnquoted_loop.simps [simp del]

definition parseArrayElement ::
  "(gostring \<Rightarrow> 'f option) \<Rightarrow> ScriptReader \<Rightarrow> error + ('f trait \<times> gostring \<times> ScriptReader)" where
  "parseArrayElement PF sr0 =
     (case peek sr0 of
        (Inl e, sr) \<Rightarrow> Inl e
      | (Inr first, sr) \<Rightarrow>
          if first = SymArgDoubleQuote \<or> first = SymArgSingleQuote then
            (case read sr of (ch, sr1) \<Rightarrow>
               (case parseTraitQuoted_loop ch [ch] [] sr1 of
                  Inl e \<Rightarrow> Inl e
                | Inr (v, raw, sr2) \<Rightarrow> Inr (TString v, raw, sr2)))
          else
            (case parseArrayUnquoted_loop [] [] sr of
               Inl e \<Rightarrow> Inl e
             | Inr (v, raw, sr1) \<Rightarrow> Inr (inferType PF (TrimSpace v) False, raw, sr1)))"

lemma parseTraitQuoted_loop_len:
  "parseTraitQuoted_loop q rb vb sr = Inr (v, raw, sr') \<Longrightarrow>
   length (rest sr') \<le> length (rest sr)"
proof (induction "length (rest sr)" arbitrary: rb vb sr rule: less_induct)
  case less
  note IH = less.hyps [rotated]
  show ?case using less.prems
    by (subst (asm) parseTraitQuoted_loop.simps)
       (auto split: prod.splits if_splits sum.splits
          elim!: readE dest!: peek_rest parseEscapeSeq_len IH)
qed

lemma peekE:
  assumes "peek sr = (r, sr1)"
    and "\<lbrakk>rest sr = []; r = Inr eof; rest sr1 = []\<rbrakk> \<Longrightarrow> P"
    and "\<And>c cs. \<lbrakk>rest sr = c # cs; rest sr1 = c # cs; r = Inl ErrRuneError \<or> r = Inr c\<rbrakk> \<Longrightarrow> P"
  shows P
  using assms by (auto simp: peek_def split: list.splits if_splits)

lemma parseTraitUnquoted_loop_len:
  "parseTraitUnquoted_loop rb vb sr = Inr (v, raw, sr') \<Longrightarrow>
   length (rest sr') \<le> length (rest sr)"
proof (induction "length (rest sr)" arbitrary: rb vb sr rule: less_induct)
  case less
  note IH = less.hyps [rotated]
  show ?case using less.prems
    by (subst (asm) parseTraitUnquoted_loop.simps)
       (auto split: prod.splits if_splits sum.splits
          elim!: readE peekE dest!: parseEscapeSeq_len IH)
qed

lemma skipArrayWhitespace_len:
  "skipArrayWhitespace rb sr = Inr (raw, sr') \<Longrightarrow> length (rest sr') \<le> length (rest sr)"
proof (induction "length (rest sr)" arbitrary: rb sr rule: less_induct)
  case less
  note IH = less.hyps [rotated]
  show ?case using less.prems
    by (subst (asm) skipArrayWhitespace.simps)
       (auto simp: eof_def split: prod.splits if_splits sum.splits
          elim!: readE peekE dest!: IH)
qed

lemma parseArrayUnquoted_loop_len:
  "parseArrayUnquoted_loop rb vb sr = Inr (v, raw, sr') \<Longrightarrow>
   length (rest sr') \<le> length (rest sr)"
proof (induction "length (rest sr)" arbitrary: rb vb sr rule: less_induct)
  case less
  note IH = less.hyps [rotated]
  show ?case using less.prems
    by (subst (asm) parseArrayUnquoted_loop.simps)
       (auto split: prod.splits if_splits sum.splits
          elim!: readE peekE dest!: parseEscapeSeq_len IH)
qed

lemma parseArrayElement_len:
  "parseArrayElement PF sr = Inr (v, raw, sr') \<Longrightarrow> length (rest sr') \<le> length (rest sr)"
  by (auto simp: parseArrayElement_def split: prod.splits if_splits sum.splits
      elim!: readE peekE dest!: parseTraitQuoted_loop_len parseArrayUnquoted_loop_len)

function parseTraitArray_loop ::
  "(gostring \<Rightarrow> 'f option) \<Rightarrow> gostring \<Rightarrow> 'f trait list \<Rightarrow> ScriptReader \<Rightarrow>
   error + ('f trait \<times> gostring \<times> ScriptReader)" where
  "parseTraitArray_loop PF rawBuf elements sr0 =
     (case skipArrayWhitespace rawBuf sr0 of
        Inl e \<Rightarrow> Inl e
      | Inr (rawBuf1, sr1) \<Rightarrow>
          (case peek sr1 of
             (Inl e, sr2) \<Rightarrow> Inl e
           | (Inr next, sr2) \<Rightarrow>
               if next = eof then Inl ErrUnmatchedArrayBracket
               else if next = SymArrayEnd then
                 (case read sr2 of (ch, sr3) \<Rightarrow> Inr (TArray elements, rawBuf1 @ [ch], sr3))
               else
                 (case parseArrayElement PF sr2 of
                    Inl e \<Rightarrow> Inl e
                  | Inr (elemValue, elemRaw, sr3) \<Rightarrow>
                      (case skipArrayWhitespace (rawBuf1 @ elemRaw) sr3 of
                         Inl e \<Rightarrow> Inl e
                       | Inr (rawBuf2, sr4) \<Rightarrow>
                           (case peek sr4 of
                              (Inl e, sr5) \<Rightarrow> Inl e
                            | (Inr next2, sr5) \<Rightarrow>
                                if next2 = eof then Inl ErrUnmatchedArrayBracket
                                else if next2 = SymArrayEnd then
                                  (case read sr5 of (ch, sr6) \<Rightarrow>
                                     Inr (TArray (elements @ [elemValue]), rawBuf2 @ [ch], sr6))
                                else if next2 = SymArraySep then
                                  (case read sr5 of (ch, sr6) \<Rightarrow>
                                     parseTraitArray_loop PF (rawBuf2 @ [ch])
                                       (elements @ [elemValue]) sr6)
                                else Inl ErrUnmatchedArrayBracket)))))"
  by pat_completeness auto

termination parseTraitArray_loop
  by (relation "measure (\<lambda>(PF, rawBuf, elements, sr). length (rest sr))")
     (auto dest!: read_measure peek_measure skipArrayWhitespace_len parseArrayElement_len)

declare parseTraitArray_loop.simps [simp del]

definition parseTraitArray ::
  "(gostring \<Rightarrow> 'f option) \<Rightarrow> ScriptReader \<Rightarrow> error + ('f trait \<times> gostring \<times> ScriptReader)" where
  "parseTraitArray PF sr =
     (case read sr of (ch, sr1) \<Rightarrow> parseTraitArray_loop PF [ch] [] sr1)"

lemma parseTraitArray_loop_len:
  "parseTraitArray_loop PF rb es sr = Inr (v, raw, sr') \<Longrightarrow>
   length (rest sr') \<le> length (rest sr)"
proof (induction "length (rest sr)" arbitrary: rb es sr rule: less_induct)
  case less
  note IH = less.hyps [rotated]
  show ?case using less.prems
    by (subst (asm) parseTraitArray_loop.simps)
       (auto split: prod.splits if_splits sum.splits
          elim!: readE peekE dest!: skipArrayWhitespace_len parseArrayElement_len IH)
qed

definition parseTraitValue ::
  "(gostring \<Rightarrow> 'f option) \<Rightarrow> ScriptReader \<Rightarrow> error + ('f trait \<times> gostring \<times> ScriptReader)" where
  "parseTraitValue PF sr0 =
     (case peek sr0 of
        (Inl e, sr) \<Rightarrow> Inl e
      | (Inr first, sr) \<Rightarrow>
          if first = SymArgDoubleQuote \<or> first = SymArgSingleQuote then
            (case read sr of (ch, sr1) \<Rightarrow>
               (case parseTraitQuoted_loop ch [ch] [] sr1 of
                  Inl e \<Rightarrow> Inl e
                | Inr (v, raw, sr2) \<Rightarrow> Inr (TString v, raw, sr2)))
          else if first = SymArrayStart then parseTraitArray PF sr
          else
            (case parseTraitUnquoted_loop [] [] sr of
               Inl e \<Rightarrow> Inl e
             | Inr (v, raw, sr1) \<Rightarrow> Inr (inferType PF v False, raw, sr1)))"

lemma parseTraitValue_len:
  "parseTraitValue PF sr = Inr (v, raw, sr') \<Longrightarrow> length (rest sr') \<le> length (rest sr)"
  by (auto simp: parseTraitValue_def parseTraitArray_def
      split: prod.splits if_splits sum.splits
      elim!: readE peekE dest!: parseTraitQuoted_loop_len parseTraitUnquoted_loop_len
        parseTraitArray_loop_len)

subsection \<open>Trait segments\<close>

function consumeToEndOfCmd_loop ::
  "gostring \<Rightarrow> ScriptReader \<Rightarrow> error + (gostring \<times> ScriptReader)" where
  "consumeToEndOfCmd_loop buf sr0 =
     (case read sr0 of (ch, sr) \<Rightarrow>
        if ch = eof then Inr (buf, sr)
        else
          (case checkEndOfCmd ch sr of
             Inl e \<Rightarrow> Inl e
           | Inr (eoc, sr1) \<Rightarrow>
               if eoc then Inr (buf, sr1) else consumeToEndOfCmd_loop (buf @ [ch]) sr1))"
  by pat_completeness auto

termination consumeToEndOfCmd_loop
  by (relation "measure (\<lambda>(buf, sr). length (rest sr))")
     (auto dest!: read_measure checkEndOfCmd_len)

declare consumeToEndOfCmd_loop.simps [simp del]

definition consumeToEndOfCmd :: "ScriptReader \<Rightarrow> error + (gostring \<times> ScriptReader)" where
  "consumeToEndOfCmd sr = consumeToEndOfCmd_loop [] sr"

lemma consumeToEndOfCmd_loop_len:
  "consumeToEndOfCmd_loop b sr = Inr (v, sr') \<Longrightarrow> length (rest sr') \<le> length (rest sr)"
proof (induction "length (rest sr)" arbitrary: b sr rule: less_induct)
  case less
  note IH = less.hyps [rotated]
  show ?case using less.prems
    by (subst (asm) consumeToEndOfCmd_loop.simps)
       (auto split: prod.splits if_splits sum.splits
          elim!: readE dest!: checkEndOfCmd_len IH)
qed

text \<open>The loop of \<^verbatim>\<open>parseTraitsSyntax\<close> that reads the rest of a key.\<close>

function parseTraitKey_loop ::
  "gostring \<Rightarrow> gostring \<Rightarrow> ScriptReader \<Rightarrow> error + (gostring \<times> gostring \<times> ScriptReader)" where
  "parseTraitKey_loop fallbackBuf keySb sr0 =
     (case peek sr0 of
        (Inl e, sr) \<Rightarrow> Inl e
      | (Inr next, sr) \<Rightarrow>
          if next = eof \<or> \<not> isAdvArgName next then Inr (fallbackBuf, keySb, sr)
          else
            (case read sr of (ch, sr1) \<Rightarrow>
               parseTraitKey_loop (fallbackBuf @ [ch]) (keySb @ ToLower [ch]) sr1))"
  by pat_completeness auto

termination parseTraitKey_loop
  by (relation "measure (\<lambda>(fallbackBuf, keySb, sr). length (rest sr))")
     (auto dest!: read_measure peek_measure)

declare parseTraitKey_loop.simps [simp del]

lemma parseTraitKey_loop_len:
  "parseTraitKey_loop fb k sr = Inr (fb', k', sr') \<Longrightarrow> length (rest sr') \<le> length (rest sr)"
proof (induction "length (rest sr)" arbitrary: fb k sr rule: less_induct)
  case less
  note IH = less.hyps [rotated]
  show ?case using less.prems
    by (subst (asm) parseTraitKey_loop.simps)
       (auto split: prod.splits if_splits sum.splits elim!: readE peekE dest!: IH)
qed

text \<open>
  The loop of \<^verbatim>\<open>parseTraitsSyntax\<close> that looks for the next trait.  It yields \<open>True\<close> when it
  has consumed another \<^verbatim>\<open>#\<close> (the \<^verbatim>\<open>break\<close> that continues the outer loop) and \<open>False\<close> where
  the source returns the result.
\<close>

function parseTraits_next ::
  "gostring \<Rightarrow> ScriptReader \<Rightarrow> error + (bool \<times> gostring \<times> ScriptReader)" where
  "parseTraits_next fallbackBuf sr0 =
     (case peek sr0 of
        (Inl e, sr) \<Rightarrow> Inl e
      | (Inr next, sr) \<Rightarrow>
          if next = eof then Inr (False, fallbackBuf, sr)
          else if next = SymCmdSep then
            (case read sr of (ch, sr1) \<Rightarrow>
               (case checkEndOfCmd ch sr1 of
                  Inl e \<Rightarrow> Inl e
                | Inr (eoc, sr2) \<Rightarrow>
                    if eoc then Inr (False, fallbackBuf, sr2)
                    else parseTraits_next (fallbackBuf @ [ch]) sr2))
          else if isWhitespace next then
            (case read sr of (ch, sr1) \<Rightarrow> parseTraits_next (fallbackBuf @ [ch]) sr1)
          else if next = SymTraitsStart then
            (case read sr of (ch, sr1) \<Rightarrow> Inr (True, fallbackBuf @ [ch], sr1))
          else Inr (False, fallbackBuf, sr))"
  by pat_completeness auto

termination parseTraits_next
  by (relation "measure (\<lambda>(fallbackBuf, sr). length (rest sr))")
     (auto dest!: read_measure peek_measure checkEndOfCmd_len)

declare parseTraits_next.simps [simp del]

lemma parseTraits_next_len:
  "parseTraits_next fb sr = Inr (again, fb', sr') \<Longrightarrow> length (rest sr') \<le> length (rest sr)"
proof (induction "length (rest sr)" arbitrary: fb sr rule: less_induct)
  case less
  note IH = less.hyps [rotated]
  show ?case using less.prems
    by (subst (asm) parseTraits_next.simps)
       (auto split: prod.splits if_splits sum.splits
          elim!: readE peekE dest!: checkEndOfCmd_len IH)
qed

record 'f traitsParseResult =
  tr_traits :: "gostring \<rightharpoonup> 'f trait"
  tr_fallback :: gostring
  tr_invalidKeyName :: gostring
  tr_invalidKey :: bool

text \<open>
  The outer loop of \<^verbatim>\<open>parseTraitsSyntax\<close>.  The \<^verbatim>\<open>switch\<close> after the key yields the value of
  the trait, or ends the scan with the fallback result.
\<close>

function parseTraitsSyntax_loop ::
  "(gostring \<Rightarrow> 'f option) \<Rightarrow> (gostring \<rightharpoonup> 'f trait) \<Rightarrow> gostring \<Rightarrow> ScriptReader \<Rightarrow>
   error + ('f traitsParseResult \<times> ScriptReader)" where
  "parseTraitsSyntax_loop PF traits fallbackBuf sr0 =
     (case read sr0 of (ch, sr) \<Rightarrow>
        if ch = eof then
          Inr (\<lparr>tr_traits = traits, tr_fallback = [], tr_invalidKeyName = [],
                tr_invalidKey = False\<rparr>, sr)
        else if \<not> isAdvArgNameStart ch then
          (case consumeToEndOfCmd sr of
             Inl e \<Rightarrow> Inl e
           | Inr (rst, sr1) \<Rightarrow>
               Inr (\<lparr>tr_traits = traits, tr_fallback = fallbackBuf @ [ch] @ rst,
                     tr_invalidKeyName = fallbackBuf @ [ch] @ rst, tr_invalidKey = True\<rparr>, sr1))
        else
          (case parseTraitKey_loop (fallbackBuf @ [ch]) [] sr of
             Inl e \<Rightarrow> Inl e
           | Inr (fallbackBuf1, keySb, sr1) \<Rightarrow>
               (case peek sr1 of
                  (Inl e, sr2) \<Rightarrow> Inl e
                | (Inr next, sr2) \<Rightarrow>
                    if next = SymAdvArgEq then
                      (case read sr2 of (ch2, sr3) \<Rightarrow>
                         (case parseTraitValue PF sr3 of
                            Inl e \<Rightarrow> Inl e
                          | Inr (parsedValue, valueStr, sr4) \<Rightarrow>
                              (case parseTraits_next (fallbackBuf1 @ [ch2] @ valueStr) sr4 of
                                 Inl e \<Rightarrow> Inl e
                               | Inr (again, fallbackBuf2, sr5) \<Rightarrow>
                                   if again then
                                     parseTraitsSyntax_loop PF
                                       (traits(ToLower [ch] @ keySb \<mapsto> parsedValue))
                                       fallbackBuf2 sr5
                                   else
                                     Inr (\<lparr>tr_traits = traits(ToLower [ch] @ keySb \<mapsto> parsedValue),
                                           tr_fallback = [], tr_invalidKeyName = [],
                                           tr_invalidKey = False\<rparr>, sr5))))
                    else if next = eof \<or> next = SymCmdSep \<or> next = SymTraitsStart \<or>
                            isWhitespace next then
                      (case parseTraits_next fallbackBuf1 sr2 of
                         Inl e \<Rightarrow> Inl e
                       | Inr (again, fallbackBuf2, sr5) \<Rightarrow>
                           if again then
                             parseTraitsSyntax_loop PF
                               (traits(ToLower [ch] @ keySb \<mapsto> TBool True)) fallbackBuf2 sr5
                           else
                             Inr (\<lparr>tr_traits = traits(ToLower [ch] @ keySb \<mapsto> TBool True),
                                   tr_fallback = [], tr_invalidKeyName = [],
                                   tr_invalidKey = False\<rparr>, sr5))
                    else
                      (case consumeToEndOfCmd sr2 of
                         Inl e \<Rightarrow> Inl e
                       | Inr (rst, sr3) \<Rightarrow>
                           Inr (\<lparr>tr_traits = traits, tr_fallback = fallbackBuf1 @ rst,
                                 tr_invalidKeyName = ToLower [ch] @ keySb,
                                 tr_invalidKey = True\<rparr>, sr3)))))"
  by pat_completeness auto

termination parseTraitsSyntax_loop
  by (relation "measure (\<lambda>(PF, traits, fallbackBuf, sr). length (rest sr))")
     (auto dest!: read_measure peek_measure parseTraitKey_loop_len parseTraitValue_len
        parseTraits_next_len)

declare parseTraitsSyntax_loop.simps [simp del]

definition parseTraitsSyntax ::
  "(gostring \<Rightarrow> 'f option) \<Rightarrow> ScriptReader \<Rightarrow> error + ('f traitsParseResult \<times> ScriptReader)" where
  "parseTraitsSyntax PF sr = parseTraitsSyntax_loop PF Map.empty [SymTraitsStart] sr"

section \<open>Evaluation rules for concrete inputs\<close>

lemmas reader_eval =
  sym_defs str_def NewParser_def RuneError_def read_def peek_def unread_def skip_def
  checkEndOfCmd_def parseEscapeSeq_def
  parseExpression_def parseExpression_loop.simps
  ParseExpressions_def ParseExpressions_loop.simps
  parseQuotedArg_def parseQuotedArg_loop.simps

lemmas parser_eval =
  reader_eval isSpace_def TrimSpace_def ToLower_def
  parseJSONArg_def parseJSONArg_loop.simps
  storeArg_def parseAdvArgs_def parseAdvArgs_loop.simps
  parseArgs_finish_def parseArgs_def parseArgs_loop.simps
  parseInputMacroExt_loop.simps parseInputMacroArg_def parseInputMacroArg_loop.simps
  NewAdvArgs_def ZapScriptCmdLaunch_def ZapScriptCmdLaunchTitle_def
  ZapScriptCmdInputKeyboard_def ZapScriptCmdInputGamepad_def isInputMacroCmd_def
  parseMediaTitle_loop.simps parseMediaTitleSyntax_def
  parseCommand_finish_def parseCommand_def parseCommand_loop.simps
  parseAutoLaunchCmd_def ParseScript_def ParseScript_loop.simps

lemmas traits_eval =
  reader_eval isSpace_def TrimSpace_def ToLower_def trait_sym_defs
  isDigit_def digitsValue_def ParseInt_def inferType_def
  parseTraitQuoted_loop.simps parseTraitUnquoted_loop.simps skipArrayWhitespace.simps
  parseArrayUnquoted_loop.simps parseArrayElement_def parseTraitArray_loop.simps
  parseTraitArray_def parseTraitValue_def
  consumeToEndOfCmd_loop.simps consumeToEndOfCmd_def parseTraitKey_loop.simps
  parseTraits_next.simps parseTraitsSyntax_loop.simps parseTraitsSyntax_def

section \<open>Claims about the expression tokenizer\<close>

text \<open>
  C4 (code evaluated where it departs from the claim).  A single \<^verbatim>\<open>[\<close> that is the last
  character of the input is not emitted as a literal: \<^verbatim>\<open>parseExpression\<close> reads the end-of-input
  sentinel, which is not a second \<^verbatim>\<open>[\<close>, and calls \<^verbatim>\<open>unread\<close>; no rune was read, so the
  buffered reader refuses and \<^verbatim>\<open>ParseExpressions\<close> returns that failure.  The same happens
  to the escaped opener \<^verbatim>\<open>^[[\<close> at the very end of the input.  With a further character
  behind it the bracket is literal, the escaped opener yields \<^verbatim>\<open>[[\<close>, and an unclosed
  \<^verbatim>\<open>[[\<close> is the unmatched-expression error.
\<close>

theorem C4_single_bracket_at_end_fails:
  "ParseExpressions (NewParser (str ''['')) = Inl ErrFailedUnread
   \<and> ParseExpressions (NewParser (str ''ab['')) = Inl ErrFailedUnread
   \<and> ParseExpressions (NewParser (str ''^[['')) = Inl ErrFailedUnread
   \<and> ParseExpressions (NewParser (str ''[hello'')) = Inr (str ''[hello'')
   \<and> ParseExpressions (NewParser (str ''^[[notexpr]]'')) = Inr (str ''[[notexpr]]'')
   \<and> ParseExpressions (NewParser (str ''[[unclosed'')) = Inl ErrUnmatchedExpression"
  by (simp add: reader_eval)

section \<open>Claims about the top-level dispatcher\<close>

text \<open>A codec that rejects every text, for inputs in which no JSON value occurs.\<close>

definition rejectingCodec :: "unit json_codec" where
  "rejectingCodec = \<lparr>Unmarshal = (\<lambda>s. None), Marshal = (\<lambda>v. None)\<rparr>"

text \<open>
  C2 (code evaluated where it departs from the claim).  \<^verbatim>\<open>ParseScript\<close> has no case for
  \<^verbatim>\<open>#\<close>: a segment that begins with it reaches the default case and becomes an auto-launch
  command, and \<^verbatim>\<open>Script.Traits\<close> is never assigned.  So \<^verbatim>\<open>#a=1||#a=2\<close> and \<^verbatim>\<open>#a=1||#b=2\<close> each
  yield two \<^verbatim>\<open>launch\<close> commands and no traits.  The traits scanner itself, run on what
  follows the first \<^verbatim>\<open>#\<close>, reads the trait \<^verbatim>\<open>a = 1\<close> and stops behind the chain terminator.
\<close>

theorem C2_traits_not_dispatched:
  "ParseScript J (NewParser (str ''#a=1||#a=2'')) =
     Inr \<lparr>Traits = None,
          Cmds = [\<lparr>AdvArgs = None, Name = str ''launch'', Args = [str ''#a=1'']\<rparr>,
                  \<lparr>AdvArgs = None, Name = str ''launch'', Args = [str ''#a=2'']\<rparr>]\<rparr>
   \<and> ParseScript J (NewParser (str ''#a=1||#b=2'')) =
     Inr \<lparr>Traits = None,
          Cmds = [\<lparr>AdvArgs = None, Name = str ''launch'', Args = [str ''#a=1'']\<rparr>,
                  \<lparr>AdvArgs = None, Name = str ''launch'', Args = [str ''#b=2'']\<rparr>]\<rparr>
   \<and> map_sum id (\<lambda>(r, sr). (tr_traits r, tr_fallback r, rest sr))
         (parseTraitsSyntax PF (NewParser (str ''a=1||#a=2''))) =
       Inr ([str ''a'' \<mapsto> TInt 1], [], str ''#a=2'')"
proof (intro conjI)
  show "ParseScript J (NewParser (str ''#a=1||#a=2'')) =
     Inr \<lparr>Traits = None,
          Cmds = [\<lparr>AdvArgs = None, Name = str ''launch'', Args = [str ''#a=1'']\<rparr>,
                  \<lparr>AdvArgs = None, Name = str ''launch'', Args = [str ''#a=2'']\<rparr>]\<rparr>"
    by (simp add: parser_eval)
  show "ParseScript J (NewParser (str ''#a=1||#b=2'')) =
     Inr \<lparr>Traits = None,
          Cmds = [\<lparr>AdvArgs = None, Name = str ''launch'', Args = [str ''#a=1'']\<rparr>,
                  \<lparr>AdvArgs = None, Name = str ''launch'', Args = [str ''#b=2'']\<rparr>]\<rparr>"
    by (simp add: parser_eval)
  show "map_sum id (\<lambda>(r, sr). (tr_traits r, tr_fallback r, rest sr))
         (parseTraitsSyntax PF (NewParser (str ''a=1||#a=2''))) =
       Inr ([str ''a'' \<mapsto> TInt 1], [], str ''#a=2'')"
    by (simp add: traits_eval)
qed

text \<open>
  C3, as stated, fails: a third separator character is not absorbed by the chain
  terminator.  After \<^verbatim>\<open>**a||\<close> the remaining \<^verbatim>\<open>|**b\<close> is an auto-launch segment, so the second
  command of \<^verbatim>\<open>**a|||**b\<close> is \<^verbatim>\<open>launch\<close>, not \<^verbatim>\<open>b\<close>.
\<close>

theorem C3_counterexample:
  "ParseScript rejectingCodec (NewParser (str ''**a|||**b'')) =
     (Inr \<lparr>Traits = None,
          Cmds = [\<lparr>AdvArgs = None, Name = str ''a'', Args = []\<rparr>,
                  \<lparr>AdvArgs = None, Name = str ''launch'', Args = [str ''|**b'']\<rparr>]\<rparr>
      :: error + unit Script)
   \<and> [str ''a'', str ''launch''] \<noteq> [str ''a'', str ''b'']"
  by (simp add: parser_eval)

text \<open>
  C3, amended.  The chain terminator \<^verbatim>\<open>||\<close> separates commands: \<^verbatim>\<open>**a||**b\<close> yields the two
  commands \<^verbatim>\<open>a\<close> and \<^verbatim>\<open>b\<close>.  Further separator characters are not absorbed:
  \<^verbatim>\<open>**a|||**b\<close> yields \<^verbatim>\<open>a\<close> and an auto-launch command with the argument \<^verbatim>\<open>|**b\<close>, and
  \<^verbatim>\<open>**a||||**b\<close> yields three commands: \<^verbatim>\<open>a\<close>, an auto-launch command with one empty
  argument, and \<^verbatim>\<open>b\<close>.  A single \<^verbatim>\<open>|\<close> inside an argument is ordinary content:
  \<^verbatim>\<open>**cmd:a|b\<close> yields one command with the single argument \<^verbatim>\<open>a|b\<close>.
\<close>

theorem C3_chain_separators:
  "ParseScript J (NewParser (str ''**a||**b'')) =
     Inr \<lparr>Traits = None,
          Cmds = [\<lparr>AdvArgs = None, Name = str ''a'', Args = []\<rparr>,
                  \<lparr>AdvArgs = None, Name = str ''b'', Args = []\<rparr>]\<rparr>
   \<and> ParseScript J (NewParser (str ''**a|||**b'')) =
     Inr \<lparr>Traits = None,
          Cmds = [\<lparr>AdvArgs = None, Name = str ''a'', Args = []\<rparr>,
                  \<lparr>AdvArgs = None, Name = str ''launch'', Args = [str ''|**b'']\<rparr>]\<rparr>
   \<and> ParseScript J (NewParser (str ''**a||||**b'')) =
     Inr \<lparr>Traits = None,
          Cmds = [\<lparr>AdvArgs = None, Name = str ''a'', Args = []\<rparr>,
                  \<lparr>AdvArgs = None, Name = str ''launch'', Args = [[]]\<rparr>,
                  \<lparr>AdvArgs = None, Name = str ''b'', Args = []\<rparr>]\<rparr>
   \<and> ParseScript J (NewParser (str ''**cmd:a|b'')) =
     Inr \<lparr>Traits = None,
          Cmds = [\<lparr>AdvArgs = None, Name = str ''cmd'', Args = [str ''a|b'']\<rparr>]\<rparr>"
proof (intro conjI)
  show "ParseScript J (NewParser (str ''**a||**b'')) =
     Inr \<lparr>Traits = None,
          Cmds = [\<lparr>AdvArgs = None, Name = str ''a'', Args = []\<rparr>,
                  \<lparr>AdvArgs = None, Name = str ''b'', Args = []\<rparr>]\<rparr>"
    by (simp add: parser_eval)
  show "ParseScript J (NewParser (str ''**a|||**b'')) =
     Inr \<lparr>Traits = None,
          Cmds = [\<lparr>AdvArgs = None, Name = str ''a'', Args = []\<rparr>,
                  \<lparr>AdvArgs = None, Name = str ''launch'', Args = [str ''|**b'']\<rparr>]\<rparr>"
    by (simp add: parser_eval)
  show "ParseScript J (NewParser (str ''**a||||**b'')) =
     Inr \<lparr>Traits = None,
          Cmds = [\<lparr>AdvArgs = None, Name = str ''a'', Args = []\<rparr>,
                  \<lparr>AdvArgs = None, Name = str ''launch'', Args = [[]]\<rparr>,
                  \<lparr>AdvArgs = None, Name = str ''b'', Args = []\<rparr>]\<rparr>"
    by (simp add: parser_eval)
  show "ParseScript J (NewParser (str ''**cmd:a|b'')) =
     Inr \<lparr>Traits = None,
          Cmds = [\<lparr>AdvArgs = None, Name = str ''cmd'', Args = [str ''a|b'']\<rparr>]\<rparr>"
    by (simp add: parser_eval)
qed

section \<open>Keys of advanced arguments\<close>

definition noEmptyKey :: "advargs \<Rightarrow> bool" where
  "noEmptyKey m \<longleftrightarrow> [] \<notin> dom m"

lemma noEmptyKey_empty [simp]: "noEmptyKey Map.empty"
  by (simp add: noEmptyKey_def)

lemma noEmptyKey_storeArg [simp]: "noEmptyKey a \<Longrightarrow> noEmptyKey (storeArg a k v)"
  by (auto simp: storeArg_def noEmptyKey_def)

lemma parseAdvArgs_loop_noEmptyKey:
  "parseAdvArgs_loop J a i ca cv vs buf sr = AdvArgsOk m b sr' \<Longrightarrow> noEmptyKey a \<Longrightarrow>
   noEmptyKey m"
proof (induction "length (rest sr)" arbitrary: a i ca cv vs buf sr rule: less_induct)
  case less
  note IH = less.hyps [rotated]
  show ?case using less.prems
    by (subst (asm) parseAdvArgs_loop.simps)
       (auto split: prod.splits if_splits sum.splits
          elim!: readE dest!: parseEscapeSeq_len parseExpression_len peek_rest
            parseQuotedArg_len parseJSONArg_len checkEndOfCmd_len IH)
qed

lemma parseAdvArgs_noEmptyKey:
  "parseAdvArgs J sr = AdvArgsOk m b sr' \<Longrightarrow> noEmptyKey m"
  unfolding parseAdvArgs_def by (erule parseAdvArgs_loop_noEmptyKey) simp

lemma parseArgs_loop_noEmptyKey:
  "parseArgs_loop J oa oo args cur st sr = Inr (as, m, sr') \<Longrightarrow> noEmptyKey m"
proof (induction "length (rest sr)" arbitrary: oa oo args cur st sr rule: less_induct)
  case less
  note IH = less.hyps [rotated]
  show ?case using less.prems
    by (subst (asm) parseArgs_loop.simps)
       (auto split: prod.splits if_splits sum.splits advargs_result.splits
          elim!: readE dest!: parseEscapeSeq_len parseExpression_len
            parseQuotedArg_len parseJSONArg_len checkEndOfCmd_len
            parseAdvArgs_len_inv parseAdvArgs_noEmptyKey IH)
qed

lemma parseInputMacroArg_loop_noEmptyKey:
  "parseInputMacroArg_loop J args sr = Inr (as, m, sr') \<Longrightarrow> noEmptyKey m"
proof (induction "length (rest sr)" arbitrary: args sr rule: less_induct)
  case less
  note IH = less.hyps [rotated]
  show ?case using less.prems
    by (subst (asm) parseInputMacroArg_loop.simps)
       (auto split: prod.splits if_splits sum.splits advargs_result.splits
          elim!: readE dest!: checkEndOfCmd_len parseInputMacroExt_loop_len
            parseAdvArgs_len_inv parseAdvArgs_noEmptyKey IH)
qed

lemma parseMediaTitle_loop_noEmptyKey:
  "parseMediaTitle_loop J cb sr = Inr (m, c, sr') \<Longrightarrow> noEmptyKey m"
proof (induction "length (rest sr)" arbitrary: cb sr rule: less_induct)
  case less
  note IH = less.hyps [rotated]
  show ?case using less.prems
    by (subst (asm) parseMediaTitle_loop.simps)
       (auto split: prod.splits if_splits sum.splits advargs_result.splits
          elim!: readE dest!: parseEscapeSeq_len checkEndOfCmd_len
            parseAdvArgs_len_inv parseAdvArgs_noEmptyKey IH)
qed

lemma parseMediaTitleSyntax_noEmptyKey:
  "parseMediaTitleSyntax J sr = Inr (r, sr') \<Longrightarrow> noEmptyKey (mt_advArgs r)"
  by (auto simp: parseMediaTitleSyntax_def Let_def split: sum.splits if_splits
      dest!: parseMediaTitle_loop_noEmptyKey)

text \<open>A command whose advanced arguments, if it has any, have no empty key.\<close>

definition cmdKeysNonEmpty :: "Command \<Rightarrow> bool" where
  "cmdKeysNonEmpty c = (case AdvArgs c of None \<Rightarrow> True | Some m \<Rightarrow> noEmptyKey m)"

lemma parseCommand_loop_keys:
  "parseCommand_loop J oo name buf sr = CmdOk c b sr' \<Longrightarrow> cmdKeysNonEmpty c"
proof (induction "length (rest sr)" arbitrary: name buf sr rule: less_induct)
  case less
  note IH = less.hyps [rotated]
  show ?case using less.prems
    by (subst (asm) parseCommand_loop.simps)
       (auto simp: parseCommand_finish_def cmdKeysNonEmpty_def NewAdvArgs_def
          parseArgs_def parseInputMacroArg_def
          split: prod.splits if_splits sum.splits
          elim!: readE
          dest!: checkEndOfCmd_len parseArgs_loop_noEmptyKey
            parseInputMacroArg_loop_noEmptyKey IH)
qed

lemma parseAutoLaunchCmd_keys:
  "parseAutoLaunchCmd J prefix script sr = Inr (script', sr') \<Longrightarrow>
   list_all cmdKeysNonEmpty (Cmds script) \<Longrightarrow> list_all cmdKeysNonEmpty (Cmds script')"
  by (auto simp: parseAutoLaunchCmd_def parseArgs_def cmdKeysNonEmpty_def NewAdvArgs_def
      split: sum.splits dest!: parseArgs_loop_noEmptyKey)

lemma parseAutoLaunchCmd_facts:
  "parseAutoLaunchCmd J prefix script sr = Inr (script', sr') \<Longrightarrow>
   length (rest sr') \<le> length (rest sr) \<and>
   (\<forall>c cs. rest sr = c # cs \<and> c \<noteq> eof \<longrightarrow> length (rest sr') < length (rest sr)) \<and>
   (list_all cmdKeysNonEmpty (Cmds script) \<longrightarrow> list_all cmdKeysNonEmpty (Cmds script'))"
  by (auto dest: parseAutoLaunchCmd_len parseAutoLaunchCmd_shrinks parseAutoLaunchCmd_keys)

lemma parseCommand_facts:
  "parseCommand J oo sr = CmdOk c b sr' \<Longrightarrow>
   length (rest sr') \<le> length (rest sr) \<and> cmdKeysNonEmpty c"
  by (auto simp: parseCommand_def dest: parseCommand_loop_len_ok parseCommand_loop_keys)

lemma parseMediaTitleSyntax_facts:
  "parseMediaTitleSyntax J sr = Inr (r, sr') \<Longrightarrow>
   length (rest sr') \<le> length (rest sr) \<and> noEmptyKey (mt_advArgs r)"
  by (auto dest: parseMediaTitleSyntax_len parseMediaTitleSyntax_noEmptyKey)

lemma skip_cons: "rest sr = c # cs \<Longrightarrow> rest (skip sr) = cs"
  by (simp add: skip_def read_def)

lemma skip_nil: "rest sr = [] \<Longrightarrow> rest (skip sr) = []"
  by (simp add: skip_def read_def)

lemma ParseScript_loop_keys:
  "ParseScript_loop J script sr = Inr s \<Longrightarrow> list_all cmdKeysNonEmpty (Cmds script) \<Longrightarrow>
   list_all cmdKeysNonEmpty (Cmds s)"
proof (induction "length (rest sr)" arbitrary: script sr rule: less_induct)
  case less
  note IH = less.hyps [rotated]
  show ?case using less.prems
    apply (subst (asm) ParseScript_loop.simps)
    apply (auto split: prod.splits if_splits sum.splits command_result.splits
        simp: cmdKeysNonEmpty_def [of "\<lparr>AdvArgs = _, Name = _, Args = _\<rparr>"] NewAdvArgs_def unread_def
        split: option.splits
        elim!: readE peekE
        dest!: parseAutoLaunchCmd_facts parseMediaTitleSyntax_facts
          parseCommand_facts parseCommand_len_inv IH
        simp: skip_cons skip_nil)
    done
qed

text \<open>
  C10.  Every key stored by the advanced-argument scanner is non-empty: the result map of
  \<^verbatim>\<open>parseAdvArgs\<close> has no empty-string key, and so no command of a parsed script has an
  empty-string key in its \<^verbatim>\<open>AdvArgs\<close>.  For \<^verbatim>\<open>**cmd?=x\<close> nothing is stored and the command
  has no advanced arguments; for \<^verbatim>\<open>**cmd?a=1&=2\<close> only the pair \<^verbatim>\<open>a = 1\<close> is stored.
\<close>

theorem C10_advarg_keys_nonempty:
  "(parseAdvArgs J sr = AdvArgsOk m buf sr' \<longrightarrow> [] \<notin> dom m)
   \<and> (ParseScript J sr = Inr script \<longrightarrow>
        (\<forall>c \<in> set (Cmds script). \<forall>a. AdvArgs c = Some a \<longrightarrow> [] \<notin> dom a))
   \<and> ParseScript J (NewParser (str ''**cmd?=x'')) =
        Inr \<lparr>Traits = None, Cmds = [\<lparr>AdvArgs = None, Name = str ''cmd'', Args = []\<rparr>]\<rparr>
   \<and> ParseScript J (NewParser (str ''**cmd?a=1&=2'')) =
        Inr \<lparr>Traits = None,
             Cmds = [\<lparr>AdvArgs = Some [str ''a'' \<mapsto> str ''1''], Name = str ''cmd'',
                      Args = []\<rparr>]\<rparr>"
proof (intro conjI impI ballI allI)
  assume "parseAdvArgs J sr = AdvArgsOk m buf sr'"
  then show "[] \<notin> dom m"
    using parseAdvArgs_noEmptyKey by (simp add: noEmptyKey_def)
next
  fix c a
  assume p: "ParseScript J sr = Inr script" and c: "c \<in> set (Cmds script)"
    and a: "AdvArgs c = Some a"
  from p have "list_all cmdKeysNonEmpty (Cmds script)"
    unfolding ParseScript_def by (rule ParseScript_loop_keys) simp
  with c have "cmdKeysNonEmpty c" by (simp add: list_all_iff)
  with a show "[] \<notin> dom a" by (simp add: cmdKeysNonEmpty_def noEmptyKey_def)
next
  show "ParseScript J (NewParser (str ''**cmd?=x'')) =
        Inr \<lparr>Traits = None, Cmds = [\<lparr>AdvArgs = None, Name = str ''cmd'', Args = []\<rparr>]\<rparr>"
    by (simp add: parser_eval)
next
  show "ParseScript J (NewParser (str ''**cmd?a=1&=2'')) =
        Inr \<lparr>Traits = None,
             Cmds = [\<lparr>AdvArgs = Some [str ''a'' \<mapsto> str ''1''], Name = str ''cmd'',
                      Args = []\<rparr>]\<rparr>"
    by (simp add: parser_eval)
qed

theorem C10_advarg_keys_nonempty_witness:
  "parseAdvArgs rejectingCodec (NewParser (str ''a=1&=2'')) =
     AdvArgsOk [str ''a'' \<mapsto> str ''1''] (str ''a=1&=2'')
       \<lparr>rest = [], pos = 6, lastRune = None\<rparr>
   \<and> [] \<notin> dom [str ''a'' \<mapsto> str ''1'']
   \<and> ParseScript rejectingCodec (NewParser (str ''**cmd?a=1&=2'')) =
        (Inr \<lparr>Traits = None,
             Cmds = [\<lparr>AdvArgs = Some [str ''a'' \<mapsto> str ''1''], Name = str ''cmd'',
                      Args = []\<rparr>]\<rparr> :: error + unit Script)
   \<and> list_all (\<lambda>c. case AdvArgs c of None \<Rightarrow> True | Some a \<Rightarrow> [] \<notin> dom a)
        [\<lparr>AdvArgs = Some [str ''a'' \<mapsto> str ''1''], Name = str ''cmd'', Args = []\<rparr>]"
proof -
  have e1: "parseAdvArgs rejectingCodec (NewParser (str ''a=1&=2'')) =
     AdvArgsOk [str ''a'' \<mapsto> str ''1''] (str ''a=1&=2'')
       \<lparr>rest = [], pos = 6, lastRune = None\<rparr>"
    by (simp add: parser_eval)
  have e2: "ParseScript rejectingCodec (NewParser (str ''**cmd?a=1&=2'')) =
        (Inr \<lparr>Traits = None,
             Cmds = [\<lparr>AdvArgs = Some [str ''a'' \<mapsto> str ''1''], Name = str ''cmd'',
                      Args = []\<rparr>]\<rparr> :: error + unit Script)"
    by (simp add: parser_eval)
  note t = C10_advarg_keys_nonempty
    [of rejectingCodec "NewParser (str ''a=1&=2'')" "[str ''a'' \<mapsto> str ''1'']"
      "str ''a=1&=2''" "\<lparr>rest = [], pos = 6, lastRune = None\<rparr>"]
  from t e1 have k: "[] \<notin> dom [str ''a'' \<mapsto> str ''1'']" by blast
  from e1 e2 k show ?thesis by simp
qed

section \<open>Errors that reach the caller\<close>

text \<open>
  The named hard errors, the two failures of the reader, and the two signals
  \<^verbatim>\<open>ErrInvalidCmdName\<close> and \<^verbatim>\<open>ErrInvalidAdvArgName\<close> that are caught by the calling scanner.
\<close>

definition namedHardError :: "error \<Rightarrow> bool" where
  "namedHardError e \<longleftrightarrow>
     e \<in> {ErrEmptyZapScript, ErrUnexpectedEOF, ErrEmptyCmdName, ErrUnmatchedQuote,
          ErrInvalidJSON, ErrUnmatchedExpression, ErrUnmatchedInputMacroExt,
          ErrUnmatchedArrayBracket, ErrInvalidTraitKey, ErrBadExpressionReturn}"

definition readerFailure :: "error \<Rightarrow> bool" where
  "readerFailure e \<longleftrightarrow> e \<in> {ErrRuneError, ErrFailedUnread}"

definition reportable :: "error \<Rightarrow> bool" where
  "reportable e \<longleftrightarrow> namedHardError e \<or> readerFailure e"

lemma reportable_simps [simp]:
  "reportable ErrEmptyZapScript" "reportable ErrUnexpectedEOF" "reportable ErrEmptyCmdName"
  "reportable ErrUnmatchedQuote" "reportable ErrInvalidJSON" "reportable ErrUnmatchedExpression"
  "reportable ErrUnmatchedInputMacroExt" "reportable ErrRuneError" "reportable ErrFailedUnread"
  by (simp_all add: reportable_def namedHardError_def readerFailure_def)

lemma peek_err: "peek sr = (Inl e, sr1) \<Longrightarrow> e = ErrRuneError"
  by (auto simp: peek_def split: list.splits if_splits)

lemma checkEndOfCmd_err: "checkEndOfCmd ch sr = Inl e \<Longrightarrow> reportable e"
  by (auto simp: checkEndOfCmd_def split: if_splits prod.splits sum.splits dest!: peek_err)

lemma parseExpression_loop_err:
  "parseExpression_loop rawExpr sr = Inl e \<Longrightarrow> reportable e"
proof (induction "length (rest sr)" arbitrary: rawExpr sr rule: less_induct)
  case less
  note IH = less.hyps [rotated]
  show ?case using less.prems
    by (subst (asm) parseExpression_loop.simps)
       (auto split: prod.splits if_splits sum.splits elim!: readE peekE dest!: IH)
qed

lemma parseExpression_err: "parseExpression sr = Inl e \<Longrightarrow> reportable e"
  by (auto simp: parseExpression_def unread_def
      split: prod.splits if_splits sum.splits option.splits
      dest!: parseExpression_loop_err)

lemma parseQuotedArg_loop_err:
  "parseQuotedArg_loop start arg sr = Inl e \<Longrightarrow> reportable e"
proof (induction "length (rest sr)" arbitrary: arg sr rule: less_induct)
  case less
  note IH = less.hyps [rotated]
  show ?case using less.prems
    by (subst (asm) parseQuotedArg_loop.simps)
       (auto split: prod.splits if_splits sum.splits
          elim!: readE dest!: parseEscapeSeq_len parseExpression_len parseExpression_err IH)
qed

lemma parseQuotedArg_err: "parseQuotedArg start sr = Inl e \<Longrightarrow> reportable e"
  unfolding parseQuotedArg_def by (rule parseQuotedArg_loop_err)

lemma parseJSONArg_loop_err:
  "parseJSONArg_loop n i esc b sr = Inl e \<Longrightarrow> e = ErrInvalidJSON"
proof (induction "length (rest sr)" arbitrary: n i esc b sr rule: less_induct)
  case less
  note IH = less.hyps [rotated]
  show ?case using less.prems
    by (subst (asm) parseJSONArg_loop.simps)
       (auto split: prod.splits if_splits elim!: readE dest!: IH)
qed

lemma parseJSONArg_only_error: "parseJSONArg J sr = Inl e \<Longrightarrow> e = ErrInvalidJSON"
  by (auto simp: parseJSONArg_def split: sum.splits option.splits prod.splits
      dest!: parseJSONArg_loop_err)

lemma parseJSONArg_err: "parseJSONArg J sr = Inl e \<Longrightarrow> reportable e"
  by (auto dest: parseJSONArg_only_error)

lemma parseAdvArgs_loop_err:
  "parseAdvArgs_loop J a i ca cv vs buf sr = AdvArgsErr e \<Longrightarrow> reportable e"
proof (induction "length (rest sr)" arbitrary: a i ca cv vs buf sr rule: less_induct)
  case less
  note IH = less.hyps [rotated]
  show ?case using less.prems
    by (subst (asm) parseAdvArgs_loop.simps)
       (auto split: prod.splits if_splits sum.splits
          elim!: readE peekE
          dest!: parseEscapeSeq_len parseExpression_len parseQuotedArg_len parseJSONArg_len
            checkEndOfCmd_len parseExpression_err parseQuotedArg_err parseJSONArg_err
            checkEndOfCmd_err IH)
qed

lemma parseAdvArgs_err: "parseAdvArgs J sr = AdvArgsErr e \<Longrightarrow> reportable e"
  unfolding parseAdvArgs_def by (rule parseAdvArgs_loop_err)

lemma parseArgs_loop_err:
  "parseArgs_loop J oa oo args cur st sr = Inl e \<Longrightarrow> reportable e"
proof (induction "length (rest sr)" arbitrary: oa oo args cur st sr rule: less_induct)
  case less
  note IH = less.hyps [rotated]
  show ?case using less.prems
    by (subst (asm) parseArgs_loop.simps)
       (auto split: prod.splits if_splits sum.splits advargs_result.splits
          elim!: readE
          dest!: parseEscapeSeq_len parseExpression_len parseQuotedArg_len parseJSONArg_len
            checkEndOfCmd_len parseAdvArgs_len_inv
            parseExpression_err parseQuotedArg_err parseJSONArg_err checkEndOfCmd_err
            parseAdvArgs_err IH)
qed

lemma parseArgs_err: "parseArgs J prefix oa oo sr = Inl e \<Longrightarrow> reportable e"
  unfolding parseArgs_def by (rule parseArgs_loop_err)

lemma parseInputMacroExt_loop_err:
  "parseInputMacroExt_loop b sr = Inl e \<Longrightarrow> e = ErrUnmatchedInputMacroExt"
proof (induction "length (rest sr)" arbitrary: b sr rule: less_induct)
  case less
  note IH = less.hyps [rotated]
  show ?case using less.prems
    by (subst (asm) parseInputMacroExt_loop.simps)
       (auto split: prod.splits if_splits elim!: readE dest!: IH)
qed

lemma parseInputMacroArg_loop_err:
  "parseInputMacroArg_loop J args sr = Inl e \<Longrightarrow> reportable e"
proof (induction "length (rest sr)" arbitrary: args sr rule: less_induct)
  case less
  note IH = less.hyps [rotated]
  show ?case using less.prems
    by (subst (asm) parseInputMacroArg_loop.simps)
       (auto split: prod.splits if_splits sum.splits advargs_result.splits
          elim!: readE
          dest!: checkEndOfCmd_len parseInputMacroExt_loop_len parseAdvArgs_len_inv
            checkEndOfCmd_err parseInputMacroExt_loop_err parseAdvArgs_err IH)
qed

lemma parseInputMacroArg_err: "parseInputMacroArg J sr = Inl e \<Longrightarrow> reportable e"
  unfolding parseInputMacroArg_def by (rule parseInputMacroArg_loop_err)

lemma parseMediaTitle_loop_err:
  "parseMediaTitle_loop J cb sr = Inl e \<Longrightarrow> reportable e"
proof (induction "length (rest sr)" arbitrary: cb sr rule: less_induct)
  case less
  note IH = less.hyps [rotated]
  show ?case using less.prems
    by (subst (asm) parseMediaTitle_loop.simps)
       (auto split: prod.splits if_splits sum.splits advargs_result.splits
          elim!: readE
          dest!: parseEscapeSeq_len checkEndOfCmd_len parseAdvArgs_len_inv
            checkEndOfCmd_err parseAdvArgs_err IH)
qed

lemma parseMediaTitleSyntax_err: "parseMediaTitleSyntax J sr = Inl e \<Longrightarrow> reportable e"
  by (auto simp: parseMediaTitleSyntax_def Let_def split: sum.splits prod.splits if_splits
      dest!: parseMediaTitle_loop_err)

lemma parseCommand_loop_err:
  "parseCommand_loop J oo name buf sr = CmdErr e \<Longrightarrow> reportable e"
proof (induction "length (rest sr)" arbitrary: name buf sr rule: less_induct)
  case less
  note IH = less.hyps [rotated]
  show ?case using less.prems
    by (subst (asm) parseCommand_loop.simps)
       (auto simp: parseCommand_finish_def unread_def
          split: prod.splits if_splits sum.splits option.splits
          elim!: readE
          dest!: checkEndOfCmd_len checkEndOfCmd_err parseArgs_err parseInputMacroArg_err IH)
qed

lemma parseCommand_err: "parseCommand J oo sr = CmdErr e \<Longrightarrow> reportable e"
  unfolding parseCommand_def by (rule parseCommand_loop_err)

lemma parseAutoLaunchCmd_err:
  "parseAutoLaunchCmd J prefix script sr = Inl e \<Longrightarrow> reportable e"
  by (auto simp: parseAutoLaunchCmd_def split: sum.splits prod.splits dest!: parseArgs_err)

lemma parseAutoLaunchCmd_measure:
  "parseAutoLaunchCmd J prefix script sr = Inr (script', sr') \<Longrightarrow>
   length (rest sr') \<le> length (rest sr) \<and>
   (\<forall>c cs. rest sr = c # cs \<and> c \<noteq> eof \<longrightarrow> length (rest sr') < length (rest sr))"
  by (auto dest: parseAutoLaunchCmd_len parseAutoLaunchCmd_shrinks)

lemma ParseScript_loop_err:
  "ParseScript_loop J script sr = Inl e \<Longrightarrow> reportable e"
proof (induction "length (rest sr)" arbitrary: script sr rule: less_induct)
  case less
  note IH = less.hyps [rotated]
  show ?case using less.prems
    by (subst (asm) ParseScript_loop.simps)
       (auto split: prod.splits if_splits sum.splits command_result.splits option.splits
          simp: unread_def skip_cons skip_nil
          elim!: readE peekE
          dest!: parseAutoLaunchCmd_measure parseMediaTitleSyntax_len
            parseCommand_len_ok parseCommand_len_inv
            parseAutoLaunchCmd_err parseMediaTitleSyntax_err parseCommand_err IH)
qed

text \<open>
  C1: the outcome of \<^verbatim>\<open>ParseScript\<close> is a script or one of the named hard errors.  The code
  departs from this on two well-formed inputs.  After \<^verbatim>\<open>*\<close> the dispatcher peeks, and
  \<^verbatim>\<open>peek\<close> reports the code point U+FFFD, which is well-formed UTF-8, as \<^verbatim>\<open>rune error\<close>.
  And a \<^verbatim>\<open>[\<close> that ends the input makes \<^verbatim>\<open>parseExpression\<close> call \<^verbatim>\<open>unread\<close> after reading
  the end-of-input sentinel, which the buffered reader refuses.  Neither error is one of
  the named hard errors.
\<close>

theorem C1_cursor_failures_reach_caller:
  "ParseScript rejectingCodec (NewParser [SymCmdStart, RuneError]) =
     (Inl ErrRuneError :: error + unit Script)
   \<and> \<not> namedHardError ErrRuneError
   \<and> ParseScript rejectingCodec (NewParser (str ''['')) =
     (Inl ErrFailedUnread :: error + unit Script)
   \<and> \<not> namedHardError ErrFailedUnread"
  by (simp add: parser_eval namedHardError_def)

section \<open>Claims about the JSON-literal extractor\<close>



text \<open>A text between double quotes.\<close>

definition quoted :: "string \<Rightarrow> gostring" where
  "quoted s = SymArgDoubleQuote # str s @ [SymArgDoubleQuote]"






section \<open>Claims about the media-title scanner\<close>
















end
